theory Spec2Isabelle
  imports Complex_Main
begin

section \<open>JavaScript strings and numbers\<close>

text \<open>
  The repository is TypeScript. A JavaScript string is modelled as an Isabelle \<open>string\<close>,
  so the code units range over Latin-1 (code points 0 to 255). Within that range the
  white space that \<open>trim\<close>, the \<open>\s\<close> class and \<open>Number\<close> skip is
  TAB, LF, VT, FF, CR, SPACE and NO-BREAK SPACE.
\<close>

definition is_ws :: "char \<Rightarrow> bool" where
  "is_ws c = (c \<in> set [CHR 0x09, CHR 0x0A, CHR 0x0B, CHR 0x0C, CHR 0x0D, CHR 0x20, CHR 0xA0])"

text \<open>\<open>String.prototype.trim\<close>: strips white space from both ends.\<close>

definition trim :: "string \<Rightarrow> string" where
  "trim s = rev (dropWhile is_ws (rev (dropWhile is_ws s)))"

text \<open>
  \<open>String.prototype.toLowerCase\<close> on Latin-1: \<open>A\<close>..\<open>Z\<close> and the accented capitals
  0xC0..0xDE (the multiplication sign 0xD7 apart) move up by 32; nothing else changes.
\<close>

definition lower_char :: "char \<Rightarrow> char" where
  "lower_char c = (let n = (of_char c :: nat) in
     if (65 \<le> n \<and> n \<le> 90) \<or> (192 \<le> n \<and> n \<le> 222 \<and> n \<noteq> 215)
     then char_of (n + 32) else c)"

definition toLowerCase :: "string \<Rightarrow> string" where
  "toLowerCase s = map lower_char s"

text \<open>\<open>s.startsWith(p)\<close> and \<open>s.includes(p)\<close>: a scan for the pattern at every position.\<close>

fun startsWith :: "string \<Rightarrow> string \<Rightarrow> bool" where
  "startsWith s [] = True"
| "startsWith [] (p # ps) = False"
| "startsWith (x # xs) (p # ps) = (x = p \<and> startsWith xs ps)"

fun includes_str :: "string \<Rightarrow> string \<Rightarrow> bool" where
  "includes_str [] pat = (pat = [])"
| "includes_str (x # xs) pat = (startsWith (x # xs) pat \<or> includes_str xs pat)"

text \<open>
  \<open>s.split(c)\<close> for a one-character separator: the pieces between the separators, in
  order; the empty string gives one empty piece.
\<close>

fun split_char :: "char \<Rightarrow> string \<Rightarrow> string list" where
  "split_char c [] = [[]]"
| "split_char c (x # xs) =
     (if x = c then [] # split_char c xs
      else (case split_char c xs of
              [] \<Rightarrow> [[x]]
            | y # ys \<Rightarrow> (x # y) # ys))"

text \<open>\<open>xs[i]\<close> on an array: \<open>undefined\<close> (here \<open>None\<close>) out of range.\<close>

fun nth_opt :: "'a list \<Rightarrow> nat \<Rightarrow> 'a option" where
  "nth_opt [] i = None"
| "nth_opt (x # xs) 0 = Some x"
| "nth_opt (x # xs) (Suc i) = nth_opt xs i"

text \<open>
  A JavaScript number is \<open>NaN\<close>, an infinity, or a finite value. Finite values are
  kept exactly, as rationals: the rounding of a literal to the nearest IEEE double is
  not part of the model, and the two zeros are one value (the code only compares
  numbers with \<open>>\<close>, \<open>!==\<close> and tests them for truthiness, where \<open>-0\<close> and
  \<open>+0\<close> agree).
\<close>

datatype jsnum = NaN | Fin rat | PosInf | NegInf

definition isNaN :: "jsnum \<Rightarrow> bool" where
  "isNaN n = (n = NaN)"

text \<open>\<open>n > 0\<close>.\<close>

fun js_pos :: "jsnum \<Rightarrow> bool" where
  "js_pos (Fin q) = (0 < q)"
| "js_pos PosInf = True"
| "js_pos _ = False"

text \<open>\<open>a === b\<close> on numbers: \<open>NaN\<close> equals nothing.\<close>

definition js_strict_eq :: "jsnum \<Rightarrow> jsnum \<Rightarrow> bool" where
  "js_strict_eq a b = (a \<noteq> NaN \<and> b \<noteq> NaN \<and> a = b)"

text \<open>Truthiness of a number: \<open>NaN\<close> and zero are falsy.\<close>

definition js_truthy :: "jsnum \<Rightarrow> bool" where
  "js_truthy n = (n \<noteq> NaN \<and> n \<noteq> Fin 0)"

fun js_neg :: "jsnum \<Rightarrow> jsnum" where
  "js_neg NaN = NaN"
| "js_neg (Fin q) = Fin (- q)"
| "js_neg PosInf = NegInf"
| "js_neg NegInf = PosInf"

text \<open>
  \<open>Number(s)\<close> on a string follows the StringNumericLiteral grammar of ECMAScript:
  optional white space around either nothing (the value 0), a binary, octal or
  hexadecimal integer (\<open>0b\<close>, \<open>0o\<close>, \<open>0x\<close>, unsigned), or an optionally signed decimal:
  \<open>Infinity\<close>, or digits with an optional fraction and an optional exponent, with at
  least one digit before the exponent. Anything else is \<open>NaN\<close>.
\<close>

definition digit_val :: "char \<Rightarrow> nat" where
  "digit_val c = (let n = (of_char c :: nat) in
     if 48 \<le> n \<and> n \<le> 57 then n - 48
     else if 97 \<le> n \<and> n \<le> 102 then n - 87
     else if 65 \<le> n \<and> n \<le> 70 then n - 55
     else 16)"

definition is_digit_of :: "nat \<Rightarrow> char \<Rightarrow> bool" where
  "is_digit_of radix c = (digit_val c < radix)"

definition is_digit :: "char \<Rightarrow> bool" where
  "is_digit c = is_digit_of 10 c"

definition radix_val :: "nat \<Rightarrow> string \<Rightarrow> nat" where
  "radix_val radix ds = foldl (\<lambda>a c. a * radix + digit_val c) 0 ds"

definition all_digits :: "nat \<Rightarrow> string \<Rightarrow> bool" where
  "all_digits radix ds = (ds \<noteq> [] \<and> list_all (is_digit_of radix) ds)"

definition nondecimal_literal :: "string \<Rightarrow> jsnum option" where
  "nondecimal_literal t =
     (case t of
        c0 # c1 # ds \<Rightarrow>
          if c0 \<noteq> CHR ''0'' then None
          else if (c1 = CHR ''x'' \<or> c1 = CHR ''X'') \<and> all_digits 16 ds
            then Some (Fin (of_nat (radix_val 16 ds)))
          else if (c1 = CHR ''o'' \<or> c1 = CHR ''O'') \<and> all_digits 8 ds
            then Some (Fin (of_nat (radix_val 8 ds)))
          else if (c1 = CHR ''b'' \<or> c1 = CHR ''B'') \<and> all_digits 2 ds
            then Some (Fin (of_nat (radix_val 2 ds)))
          else None
      | _ \<Rightarrow> None)"

definition signed_integer :: "string \<Rightarrow> int option" where
  "signed_integer r =
     (case r of
        [] \<Rightarrow> None
      | c # ds \<Rightarrow>
          if c = CHR ''+'' then (if all_digits 10 ds then Some (int (radix_val 10 ds)) else None)
          else if c = CHR ''-'' then (if all_digits 10 ds then Some (- int (radix_val 10 ds)) else None)
          else if all_digits 10 (c # ds) then Some (int (radix_val 10 (c # ds)))
          else None)"

definition exponent_part :: "string \<Rightarrow> int option" where
  "exponent_part r =
     (case r of
        [] \<Rightarrow> Some 0
      | c # ds \<Rightarrow> if c = CHR ''e'' \<or> c = CHR ''E'' then signed_integer ds else None)"

definition scale10 :: "rat \<Rightarrow> int \<Rightarrow> rat" where
  "scale10 m e = (if 0 \<le> e then m * 10 ^ nat e else m / 10 ^ nat (- e))"

definition unsigned_decimal :: "string \<Rightarrow> jsnum" where
  "unsigned_decimal t =
     (if t = ''Infinity'' then PosInf
      else
        let ip = takeWhile is_digit t;
            r1 = dropWhile is_digit t;
            fp = (case r1 of
                    [] \<Rightarrow> []
                  | c # r \<Rightarrow> if c = CHR ''.'' then takeWhile is_digit r else []);
            r2 = (case r1 of
                    [] \<Rightarrow> []
                  | c # r \<Rightarrow> if c = CHR ''.'' then dropWhile is_digit r else r1)
        in if ip = [] \<and> fp = [] then NaN
           else (case exponent_part r2 of
                   None \<Rightarrow> NaN
                 | Some e \<Rightarrow>
                     Fin (scale10 (of_nat (radix_val 10 (ip @ fp))) (e - int (length fp)))))"

definition decimal_literal :: "string \<Rightarrow> jsnum" where
  "decimal_literal t =
     (case t of
        [] \<Rightarrow> NaN
      | c # r \<Rightarrow>
          if c = CHR ''+'' then unsigned_decimal r
          else if c = CHR ''-'' then js_neg (unsigned_decimal r)
          else unsigned_decimal t)"

definition Number :: "string \<Rightarrow> jsnum" where
  "Number s =
     (let t = trim s in
      if t = [] then Fin 0
      else (case nondecimal_literal t of
              Some v \<Rightarrow> v
            | None \<Rightarrow> decimal_literal t))"

text \<open>\<open>Number(x)\<close> where \<open>x\<close> may be \<open>undefined\<close>: \<open>Number(undefined)\<close> is \<open>NaN\<close>.\<close>

definition Number_u :: "string option \<Rightarrow> jsnum" where
  "Number_u x = (case x of None \<Rightarrow> NaN | Some s \<Rightarrow> Number s)"

section \<open>The learning graph step: \<open>src/steps/learning-graph.ts\<close>\<close>

text \<open>
  The \<open>Concept\<close> interface of \<open>types.ts\<close>. The fields \<open>id\<close> and \<open>chapter\<close> are written \<open>id_c\<close> and
  \<open>chapter_c\<close> (\<open>id\<close> is the identity function of HOL, \<open>chapter\<close> a keyword of Isabelle).
\<close>

record Concept =
  id_c :: jsnum
  name :: string
  chapter_c :: jsnum
  dependencies :: "jsnum list"
  taxonomy :: string
  bloomLevel :: string

definition normalizeTaxonomy :: "string \<Rightarrow> string" where
  "normalizeTaxonomy raw =
     (let lower = toLowerCase raw in
      if includes_str lower ''found'' then ''Foundation''
      else if includes_str lower ''adv'' then ''Advanced''
      else ''Core'')"

definition normalizeBloom :: "string \<Rightarrow> string" where
  "normalizeBloom raw =
     (let lower = toLowerCase raw in
      if includes_str lower ''remember'' then ''Remember''
      else if includes_str lower ''understand'' then ''Understand''
      else if includes_str lower ''apply'' then ''Apply''
      else if includes_str lower ''analyz'' then ''Analyze''
      else if includes_str lower ''evaluat'' then ''Evaluate''
      else if includes_str lower ''creat'' then ''Create''
      else trim raw)"

text \<open>\<open>line.split('|').map(c => c.trim()).filter(Boolean)\<close>: the non-empty trimmed cells.\<close>

definition cells_of :: "string \<Rightarrow> string list" where
  "cells_of line = filter (\<lambda>c. c \<noteq> []) (map trim (split_char (CHR ''|'') line))"

text \<open>\<open>x ?? ''\<close>.\<close>

definition or_empty :: "string option \<Rightarrow> string" where
  "or_empty x = (case x of None \<Rightarrow> [] | Some s \<Rightarrow> s)"

text \<open>
  The dependency cell: split on commas, \<open>Number\<close> of each trimmed piece, keeping what is
  not \<open>NaN\<close>, is positive and differs from the row's identifier.
\<close>

definition parse_dependencies :: "jsnum \<Rightarrow> string \<Rightarrow> jsnum list" where
  "parse_dependencies ident depsStr =
     filter (\<lambda>n. \<not> isNaN n \<and> js_pos n \<and> \<not> js_strict_eq n ident)
       (map (\<lambda>s. Number (trim s)) (split_char (CHR '','') depsStr))"

text \<open>
  The body of the \<open>for\<close> loop of \<open>parseConceptTable\<close>: \<open>concepts\<close> is the array built
  so far; a \<open>continue\<close> leaves it as it is, \<open>push\<close> appends.
\<close>

definition row_step :: "Concept list \<Rightarrow> string \<Rightarrow> Concept list" where
  "row_step concepts line =
     (let cells = cells_of line in
      if length cells < 6 then concepts
      else (case nth_opt cells 0 of
              None \<Rightarrow> concepts
            | Some idStr \<Rightarrow>
                if idStr = [] \<or> isNaN (Number idStr) then concepts
                else
                  let ident = Number idStr;
                      nm = or_empty (nth_opt cells 1);
                      ch = (let c = Number_u (nth_opt cells 2) in if js_truthy c then c else Fin 1);
                      depsStr = or_empty (nth_opt cells 3);
                      tx = normalizeTaxonomy (or_empty (nth_opt cells 4));
                      bl = normalizeBloom (or_empty (nth_opt cells 5));
                      deps = parse_dependencies ident depsStr
                  in concepts @ [\<lparr> id_c = ident, name = nm, chapter_c = ch, dependencies = deps,
                                    taxonomy = tx, bloomLevel = bl \<rparr>]))"

definition table_lines :: "string \<Rightarrow> string list" where
  "table_lines raw = filter (\<lambda>l. includes_str l ''|'') (split_char (CHR 0x0A) raw)"

definition parseConceptTable :: "string \<Rightarrow> Concept list" where
  "parseConceptTable raw = foldl row_step [] (table_lines raw)"

text \<open>
  The record that a data row stands for, read off its cells: identifier from cell 1, name
  cell 2, chapter from cell 3 (1 when that is \<open>NaN\<close> or zero), dependencies from cell 4,
  the two normalised labels from cells 5 and 6.
\<close>

definition row_record :: "string list \<Rightarrow> Concept" where
  "row_record cells =
     \<lparr> id_c = Number (cells ! 0),
       name = cells ! 1,
       chapter_c = (if js_truthy (Number (cells ! 2)) then Number (cells ! 2) else Fin 1),
       dependencies = parse_dependencies (Number (cells ! 0)) (cells ! 3),
       taxonomy = normalizeTaxonomy (cells ! 4),
       bloomLevel = normalizeBloom (cells ! 5) \<rparr>"

text \<open>Sample inputs: a header row, two data rows and the table made of them.\<close>

definition row_hdr :: string where
  "row_hdr = ''| ID | Concept | Chapter | Dependencies | Taxonomy | Bloom |''"

definition row_1 :: string where
  "row_1 = ''| 1 | Alpha | x | 3, 1, abc | Foundational | remembering |''"

definition row_2 :: string where
  "row_2 = ''| 2 | Beta | 3 | 1 | core | Apply |''"

definition table_0 :: string where
  "table_0 = row_hdr @ [CHR 0x0A] @ row_1 @ [CHR 0x0A] @ row_2"

text \<open>A table of two rows that name each other as prerequisite.\<close>

definition table_cycle :: string where
  "table_cycle = ''| 1 | Alpha | 1 | 2 | Core | Apply |'' @ [CHR 0x0A] @
                 ''| 2 | Beta | 1 | 1, 2 | Core | Apply |''"

section \<open>The shared types: \<open>types.ts\<close>\<close>

text \<open>
  The remaining interfaces of \<open>types.ts\<close>. An optional field is an \<open>option\<close>. Field
  names are global in Isabelle, so where two interfaces share a name one of them is
  renamed: the configuration's \<open>chapters\<close>, \<open>concepts\<close> and \<open>outputDir\<close> are
  \<open>n_chapters\<close>, \<open>n_concepts\<close> and \<open>out_dir\<close>; a course description's \<open>title\<close> is
  \<open>cd_title\<close>; a chapter outline's \<open>concepts\<close> is \<open>concept_ids\<close>.

  A chapter number is a natural number: the extractor reads it from a run of decimal
  digits or counts it up from 1.
\<close>

datatype deploy_target = GithubPages | NoDeploy

record TextbookConfig =
  topic :: string
  n_chapters :: jsnum
  microsims :: jsnum
  n_concepts :: jsnum
  out_dir :: string
  model :: string
  deploy :: deploy_target
  repoName :: "string option"

record CourseDescription =
  cd_title :: string
  subtitle :: string
  targetAudience :: string
  prerequisites :: string
  topics :: "string list"
  learningOutcomes :: "string list"
  rawMarkdown :: string

record ChapterOutline =
  number :: nat
  title :: string
  summary :: string
  concept_ids :: "jsnum list"

record PipelineContext =
  config :: TextbookConfig
  courseDescription :: "CourseDescription option"
  concepts :: "Concept list option"
  chapters :: "ChapterOutline list option"
  outputDir :: string

text \<open>
  A thrown value: an \<open>Error\<close> object with its message, or any other value, kept as the
  text that \<open>String(value)\<close> gives. \<open>error_msg\<close> is the expression
  \<open>error instanceof Error ? error.message : String(error)\<close>.
\<close>

datatype js_error = Error string | Thrown string


text \<open>\<open>String(n)\<close> for a natural number (below \<open>10^21\<close>, where JavaScript prints all digits).\<close>

fun show_nat :: "nat \<Rightarrow> string" where
  "show_nat n = (if n < 10 then [char_of (48 + n)] else show_nat (n div 10) @ [char_of (48 + n mod 10)])"

section \<open>The orchestrator: \<open>src/pipeline.ts\<close>\<close>





text \<open>
  What a run shows, in order: the spinner lines, and between the start of a spinner and
  its end the call \<open>step.fn(ctx)\<close>, recorded under the step's name. A spinner line is
  kept as its text without the colours of \<open>chalk\<close>. The elapsed time that the success
  line appends, and the banner and summary printed with \<open>console.log\<close>, depend on the
  clock and on number formatting and are left out.
\<close>

datatype event =
  SpinnerStart string
| StepCall string
| SpinnerSucceed string
| SpinnerFail string






fun calls :: "event list \<Rightarrow> string list" where
  "calls [] = []"
| "calls (StepCall nm # tr) = nm # calls tr"
| "calls (e # tr) = calls tr"





definition config_0 :: TextbookConfig where
  "config_0 = \<lparr> topic = ''Widgets'', n_chapters = Fin 2, microsims = Fin 0, n_concepts = Fin 4,
                out_dir = ''/tmp/widgets'', model = ''claude-sonnet-4-5'', deploy = NoDeploy,
                repoName = None \<rparr>"

section \<open>The generation service: \<open>src/claude.ts\<close>\<close>

text \<open>
  \<open>generate\<close> sends one request to the model and returns the text of the first text
  block of the answer. The client and the network are outside the repository: the service
  is a parameter \<open>svc\<close>, which gives to the \<open>n\<close>-th request issued the time at which its
  promise settles and how: rejected with a thrown value, or fulfilled with the content
  blocks of the final message. The world records the requests issued, and the file
  operations issued (below), in order.
\<close>

datatype content_block = TextBlock string | OtherBlock string

record api_request =
  req_model :: string
  max_tokens :: jsnum
  req_system :: string
  user_content :: string

text \<open>
  The options object of \<open>generate\<close>, every field optional; the fields \<open>system\<close>,
  \<open>model\<close> and \<open>maxTokens\<close> are written with the prefix \<open>opt_\<close>.
\<close>

record gen_options =
  opt_system :: "string option"
  opt_model :: "string option"
  opt_maxTokens :: "jsnum option"

datatype fs_op = Mkdir "string list" | WriteFile "string list" string

record world =
  api_calls :: "api_request list"
  fs_ops :: "fs_op list"

text \<open>A promise, by the time at which it settles and its outcome.\<close>

type_synonym 'a settled = "nat \<times> (js_error + 'a)"

type_synonym service = "nat \<Rightarrow> api_request \<Rightarrow> content_block list settled"

text \<open>\<open>x || d\<close> on an optional string and on an optional number.\<close>

definition str_or :: "string option \<Rightarrow> string \<Rightarrow> string" where
  "str_or x d = (case x of None \<Rightarrow> d | Some s \<Rightarrow> if s = [] then d else s)"

definition num_or :: "jsnum option \<Rightarrow> jsnum \<Rightarrow> jsnum" where
  "num_or x d = (case x of None \<Rightarrow> d | Some n \<Rightarrow> if js_truthy n then n else d)"

text \<open>The request that \<open>generate\<close> builds from a prompt and its options.\<close>

definition request_of :: "string \<Rightarrow> gen_options \<Rightarrow> api_request" where
  "request_of prompt options =
     \<lparr> req_model = str_or (opt_model options) ''claude-sonnet-4-5'',
       max_tokens = num_or (opt_maxTokens options) (Fin 8192),
       req_system = str_or (opt_system options) ''You are an expert educational content creator.'',
       user_content = prompt \<rparr>"

text \<open>\<open>response.content.find(b => b.type === 'text')\<close>, then \<open>textBlock?.text ?? ''\<close>.\<close>

fun first_text :: "content_block list \<Rightarrow> string" where
  "first_text [] = []"
| "first_text (TextBlock t # bs) = t"
| "first_text (OtherBlock k # bs) = first_text bs"

definition generate :: "service \<Rightarrow> string \<Rightarrow> gen_options \<Rightarrow> world \<Rightarrow> string settled \<times> world" where
  "generate svc prompt options w =
     (let req = request_of prompt options;
          answer = svc (length (api_calls w)) req
      in ((fst answer,
           (case snd answer of
              Inl e \<Rightarrow> Inl e
            | Inr content \<Rightarrow> Inr (first_text content))),
          w\<lparr> api_calls := api_calls w @ [req] \<rparr>))"

text \<open>
  \<open>Promise.all\<close>: fulfilled with the values in the order of the promises when all of
  them fulfil; rejected with the reason of the promise that rejects first otherwise (of
  two that reject at the same time, the one listed first).
\<close>

fun earliest_rejection :: "'a settled list \<Rightarrow> (nat \<times> js_error) option" where
  "earliest_rejection [] = None"
| "earliest_rejection ((t, Inr v) # ps) = earliest_rejection ps"
| "earliest_rejection ((t, Inl e) # ps) =
     (case earliest_rejection ps of
        None \<Rightarrow> Some (t, e)
      | Some (t', e') \<Rightarrow> if t' < t then Some (t', e') else Some (t, e))"

fun fulfilled_values :: "'a settled list \<Rightarrow> 'a list" where
  "fulfilled_values [] = []"
| "fulfilled_values ((t, Inr v) # ps) = v # fulfilled_values ps"
| "fulfilled_values ((t, Inl e) # ps) = fulfilled_values ps"

definition Promise_all :: "'a settled list \<Rightarrow> js_error + 'a list" where
  "Promise_all ps =
     (case earliest_rejection ps of
        Some (t, e) \<Rightarrow> Inl e
      | None \<Rightarrow> Inr (fulfilled_values ps))"

text \<open>An element of the array given to \<open>generateParallel\<close>; \<open>system\<close> is \<open>p_system\<close>.\<close>

record prompt_item =
  prompt :: string
  p_system :: "string option"

text \<open>The options that \<open>generateParallel\<close> hands to \<open>generate\<close> for one element.\<close>

definition call_options :: "gen_options \<Rightarrow> prompt_item \<Rightarrow> gen_options" where
  "call_options options p =
     \<lparr> opt_system = p_system p, opt_model = opt_model options,
       opt_maxTokens = opt_maxTokens options \<rparr>"

text \<open>
  \<open>prompts.map(p => generate(...))\<close>: the calls are made in the order of the array, each
  issuing its request at once; the promises are collected in the same order.
\<close>

fun issue_all :: "service \<Rightarrow> prompt_item list \<Rightarrow> gen_options \<Rightarrow> world \<Rightarrow> string settled list \<times> world" where
  "issue_all svc [] options w = ([], w)"
| "issue_all svc (p # ps) options w =
     (case generate svc (prompt p) (call_options options p) w of
        (r, w1) \<Rightarrow> (case issue_all svc ps options w1 of
                      (rs, w2) \<Rightarrow> (r # rs, w2)))"

definition generateParallel ::
  "service \<Rightarrow> prompt_item list \<Rightarrow> gen_options \<Rightarrow> world \<Rightarrow> (js_error + string list) \<times> world" where
  "generateParallel svc prompts options w =
     (case issue_all svc prompts options w of
        (rs, w') \<Rightarrow> (Promise_all rs, w'))"

text \<open>
  The underlying call for element \<open>i\<close>: \<open>generate\<close> on that element, in the world where
  the requests of the elements before it have been issued.
\<close>

definition nth_call :: "service \<Rightarrow> prompt_item list \<Rightarrow> gen_options \<Rightarrow> world \<Rightarrow> nat \<Rightarrow> string settled" where
  "nth_call svc prompts options w i =
     fst (generate svc (prompt (prompts ! i)) (call_options options (prompts ! i))
            (w\<lparr> api_calls := api_calls w @
                 map (\<lambda>p. request_of (prompt p) (call_options options p)) (take i prompts) \<rparr>))"

section \<open>The chapter content step: \<open>src/steps/chapter-content.ts\<close>\<close>

text \<open>
  The file system is a parameter like the service: \<open>fsys\<close> gives to the \<open>n\<close>-th
  operation issued the time at which it settles and the error it rejects with, if any.
  A path is kept as the list of the segments handed to \<open>join\<close>.
\<close>

type_synonym filesystem = "nat \<Rightarrow> fs_op \<Rightarrow> nat \<times> js_error option"

definition fs_call :: "filesystem \<Rightarrow> fs_op \<Rightarrow> world \<Rightarrow> unit settled \<times> world" where
  "fs_call fsys op w =
     (let answer = fsys (length (fs_ops w)) op
      in ((fst answer, (case snd answer of None \<Rightarrow> Inr () | Some e \<Rightarrow> Inl e)),
          w\<lparr> fs_ops := fs_ops w @ [op] \<rparr>))"

definition SYSTEM_chapter_content :: string where
  "SYSTEM_chapter_content =
     ''You are an expert technical author and educator producing content for an intelligent textbook.'' @ [CHR 0x0A] @
     ''Your writing is rigorous, precise, and engaging. You use concrete examples, analogies, and visual structures'' @ [CHR 0x0A] @
     ''(tables, diagrams, callout boxes) to make complex ideas accessible without sacrificing depth.'' @ [CHR 0x0A] @
     ''You write for practitioners who want to genuinely understand a domain, not just pass a test.''"

text \<open>\<open>s.padStart(2, '0')\<close>.\<close>

definition padStart2 :: "string \<Rightarrow> string" where
  "padStart2 s = replicate (2 - length s) (CHR ''0'') @ s"

text \<open>
  The body of the \<open>map\<close> that writes the chapters: element \<open>i\<close> takes \<open>results[i]\<close>, or
  a fallback text when that is \<open>undefined\<close>, and writes it to \<open>chapter-NN.md\<close>. The
  writes are issued in the order of the array.
\<close>

definition chapter_file :: "string list \<Rightarrow> string list \<Rightarrow> ChapterOutline \<Rightarrow> nat \<Rightarrow> fs_op" where
  "chapter_file chaptersDir results ch i =
     (let content = (case nth_opt results i of
                       Some r \<Rightarrow> r
                     | None \<Rightarrow> ''# Chapter '' @ show_nat (number ch) @ '': '' @ title ch @
                                [CHR 0x0A, CHR 0x0A] @ ''Content generation failed.'');
          paddedNum = padStart2 (show_nat (number ch));
          filename = ''chapter-'' @ paddedNum @ ''.md''
      in WriteFile (chaptersDir @ [filename]) content)"

fun write_all ::
  "filesystem \<Rightarrow> string list \<Rightarrow> string list \<Rightarrow> ChapterOutline list \<Rightarrow> nat \<Rightarrow> world
   \<Rightarrow> unit settled list \<times> world" where
  "write_all fsys chaptersDir results [] i w = ([], w)"
| "write_all fsys chaptersDir results (ch # chs) i w =
     (case fs_call fsys (chapter_file chaptersDir results ch i) w of
        (r, w1) \<Rightarrow> (case write_all fsys chaptersDir results chs (i + 1) w1 of
                      (rs, w2) \<Rightarrow> (r # rs, w2)))"

text \<open>
  \<open>generateChapterContent\<close>. The prompt text is built by \<open>buildChapterPrompt\<close>, a
  template over the outline, the concepts, the title and the topic; its wording plays no
  part here and it is a parameter.
\<close>

definition generateChapterContent ::
  "service \<Rightarrow> filesystem \<Rightarrow> (ChapterOutline \<Rightarrow> Concept list \<Rightarrow> string \<Rightarrow> string \<Rightarrow> string)
   \<Rightarrow> PipelineContext \<Rightarrow> world \<Rightarrow> (js_error + unit) \<times> world" where
  "generateChapterContent svc fsys buildChapterPrompt ctx w =
     (let tpc = topic (config ctx);
          mdl = model (config ctx);
          ttl = (case courseDescription ctx of None \<Rightarrow> tpc | Some cd \<Rightarrow> cd_title cd);
          chs = (case chapters ctx of None \<Rightarrow> [] | Some c \<Rightarrow> c);
          cpts = (case concepts ctx of None \<Rightarrow> [] | Some c \<Rightarrow> c)
      in if length chs = 0
         then (Inl (Error ''Chapter structure must be generated before chapter content.''), w)
         else
           let prompts = map (\<lambda>ch. \<lparr> prompt = buildChapterPrompt ch cpts ttl tpc,
                                     p_system = Some SYSTEM_chapter_content \<rparr>) chs
           in case generateParallel svc prompts
                     \<lparr> opt_system = None, opt_model = Some mdl, opt_maxTokens = Some (Fin 16384) \<rparr> w of
                (Inl e, w1) \<Rightarrow> (Inl e, w1)
              | (Inr results, w1) \<Rightarrow>
                  let chaptersDir = [outputDir ctx, ''docs'', ''chapters'']
                  in case fs_call fsys (Mkdir chaptersDir) w1 of
                       ((t, Inl e), w2) \<Rightarrow> (Inl e, w2)
                     | ((t, Inr u), w2) \<Rightarrow>
                         (case write_all fsys chaptersDir results chs 0 w2 of
                            (ws, w3) \<Rightarrow>
                              (case Promise_all ws of
                                 Inl e \<Rightarrow> (Inl e, w3)
                               | Inr us \<Rightarrow> (Inr (), w3))))"

text \<open>
  Samples: a service that answers every request with one text block echoing the prompt,
  and one that rejects its second request; a file system that accepts everything; a
  prompt builder that gives the chapter title; contexts with and without chapters.
\<close>

definition svc_echo :: service where
  "svc_echo n req = (n, Inr [OtherBlock ''thinking'', TextBlock (''re: '' @ user_content req)])"

definition svc_fail2 :: service where
  "svc_fail2 n req = (if n = 1 then (0, Inl (Error ''overloaded''))
                      else (5, Inr [TextBlock (''re: '' @ user_content req)]))"

definition fsys_ok :: filesystem where
  "fsys_ok n op = (n, None)"

definition bcp_title :: "ChapterOutline \<Rightarrow> Concept list \<Rightarrow> string \<Rightarrow> string \<Rightarrow> string" where
  "bcp_title ch cs ttl tpc = title ch"

definition world_0 :: world where
  "world_0 = \<lparr> api_calls = [], fs_ops = [] \<rparr>"

definition prompts_3 :: "prompt_item list" where
  "prompts_3 = [\<lparr> prompt = ''a'', p_system = None \<rparr>, \<lparr> prompt = ''b'', p_system = Some ''s'' \<rparr>,
                \<lparr> prompt = ''c'', p_system = None \<rparr>]"

definition options_0 :: gen_options where
  "options_0 = \<lparr> opt_system = None, opt_model = None, opt_maxTokens = None \<rparr>"

definition ctx_empty :: PipelineContext where
  "ctx_empty = \<lparr> config = config_0, courseDescription = None, concepts = None, chapters = None,
                 outputDir = ''/tmp/widgets'' \<rparr>"

definition ctx_two :: PipelineContext where
  "ctx_two = ctx_empty \<lparr> chapters :=
     Some [\<lparr> number = 1, title = ''Intro'', summary = '''', concept_ids = [] \<rparr>,
           \<lparr> number = 2, title = ''More'', summary = '''', concept_ids = [Fin 1] \<rparr>] \<rparr>"

section \<open>Regular expressions\<close>

text \<open>
  The chapter structure step reads the model's answer with four regular expressions. They
  are modelled by their syntax trees and a backtracking matcher that follows the
  semantics of ECMAScript: alternatives are tried in the order of the specification
  (a greedy star first tries one more iteration, and an iteration that consumes nothing is
  refused), and the first way to match is the match.

  A character class is one character, one letter whatever its case (the flag \<open>i\<close>),
  \<open>\s\<close>, \<open>\d\<close>, a negated set, or the dot (any character but a line terminator).
\<close>

datatype cclass = Ch char | ChI char | Space | Digit | NotIn "char list" | Dot

fun cclass_match :: "cclass \<Rightarrow> char \<Rightarrow> bool" where
  "cclass_match (Ch c) x = (x = c)"
| "cclass_match (ChI c) x = (lower_char x = lower_char c)"
| "cclass_match Space x = is_ws x"
| "cclass_match Digit x = is_digit x"
| "cclass_match (NotIn cs) x = (x \<notin> set cs)"
| "cclass_match Dot x = (x \<noteq> CHR 0x0A \<and> x \<noteq> CHR 0x0D)"

datatype regex = Eps | Atom cclass | Cat regex regex | Star regex | Group nat regex

text \<open>\<open>r+\<close>, a literal string, and a literal string under the flag \<open>i\<close>.\<close>

definition Plus :: "regex \<Rightarrow> regex" where
  "Plus r = Cat r (Star r)"

fun Lit :: "string \<Rightarrow> regex" where
  "Lit [] = Eps"
| "Lit (c # cs) = Cat (Atom (Ch c)) (Lit cs)"

fun LitI :: "string \<Rightarrow> regex" where
  "LitI [] = Eps"
| "LitI (c # cs) = Cat (Atom (ChI c)) (LitI cs)"

text \<open>
  \<open>re_m r s caps\<close> lists every way in which \<open>r\<close> matches a prefix of \<open>s\<close>, each as the
  rest of the input and the captures so far, in the order in which a backtracking matcher
  tries them. A group records the text it consumed under its number.
\<close>

type_synonym caps = "(nat \<times> string) list"

function re_m :: "regex \<Rightarrow> string \<Rightarrow> caps \<Rightarrow> (string \<times> caps) list" where
  "re_m Eps s c = [(s, c)]"
| "re_m (Atom k) s c =
     (case s of
        [] \<Rightarrow> []
      | x # xs \<Rightarrow> if cclass_match k x then [(xs, c)] else [])"
| "re_m (Cat r1 r2) s c = concat (map (\<lambda>m. re_m r2 (fst m) (snd m)) (re_m r1 s c))"
| "re_m (Star r) s c =
     concat (map (\<lambda>m. if length (fst m) < length s then re_m (Star r) (fst m) (snd m) else [])
                 (re_m r s c))
     @ [(s, c)]"
| "re_m (Group i r) s c =
     map (\<lambda>m. (fst m, (i, take (length s - length (fst m)) s) # snd m)) (re_m r s c)"
  by pat_completeness auto
termination
  by (relation "measures [\<lambda>(r, s, c). size r, \<lambda>(r, s, c). length s]") auto

text \<open>
  \<open>s.match(r)\<close> for a regular expression without the flag \<open>g\<close>: the first match found
  from the leftmost position where there is one; \<open>None\<close> is \<open>null\<close>. The result holds
  the captures; \<open>m[i]\<close> is \<open>group m i\<close>.
\<close>

fun re_exec :: "regex \<Rightarrow> string \<Rightarrow> caps option" where
  "re_exec r [] = (case re_m r [] [] of [] \<Rightarrow> None | m # ms \<Rightarrow> Some (snd m))"
| "re_exec r (x # xs) = (case re_m r (x # xs) [] of [] \<Rightarrow> re_exec r xs | m # ms \<Rightarrow> Some (snd m))"

definition group :: "caps \<Rightarrow> nat \<Rightarrow> string" where
  "group m i = (case map_of m i of None \<Rightarrow> [] | Some s \<Rightarrow> s)"

text \<open>
  \<open>s.split(r)\<close> for a regular expression without groups: \<open>cur\<close> is the piece being
  read, the other argument the rest of the input. Where \<open>r\<close> matches, the piece ends and
  the next one starts after the match; a match that consumes nothing ends the piece only
  when the piece is not empty, and the scan moves on by one character.
\<close>

function re_split :: "regex \<Rightarrow> string \<Rightarrow> string \<Rightarrow> string list" where
  "re_split r cur [] = [cur]"
| "re_split r cur (x # xs) =
     (case re_m r (x # xs) [] of
        [] \<Rightarrow> re_split r (cur @ [x]) xs
      | m # ms \<Rightarrow>
          if length (fst m) < length (x # xs) then cur # re_split r [] (fst m)
          else if cur = [] then re_split r [x] xs
          else cur # re_split r [x] xs)"
  by pat_completeness auto
termination
  by (relation "measure (\<lambda>(r, cur, s). length s)") auto

text \<open>
  The whole of \<open>s.split(r)\<close>: the empty string gives no piece when \<open>r\<close> matches it,
  and itself as the one piece otherwise.
\<close>

definition split_re :: "regex \<Rightarrow> string \<Rightarrow> string list" where
  "split_re r s =
     (if s = [] then (case re_m r [] [] of [] \<Rightarrow> [[]] | m # ms \<Rightarrow> [])
      else re_split r [] s)"

section \<open>The chapter structure step: \<open>parseChapterOutlines\<close>\<close>

text \<open>\<open>/---+/g\<close>\<close>

definition delimiter_re :: regex where
  "delimiter_re = Cat (Lit ''--'') (Plus (Atom (Ch (CHR ''-''))))"

text \<open>\<open>/##\s+Chapter\s+(\d+):\s*(.+)/i\<close>\<close>

definition header_re :: regex where
  "header_re =
     Cat (Lit ''##'') (Cat (Plus (Atom Space)) (Cat (LitI ''Chapter'') (Cat (Plus (Atom Space))
       (Cat (Group 1 (Plus (Atom Digit))) (Cat (Lit '':'') (Cat (Star (Atom Space))
         (Group 2 (Plus (Atom Dot)))))))))"

text \<open>\<open>/\*\*Summary:\*\*\s*([^\n*]+(?:\n[^*\n][^\n]*)*)/i\<close>\<close>

definition summary_re :: regex where
  "summary_re =
     Cat (Lit ''**'') (Cat (LitI ''Summary:'') (Cat (Lit ''**'') (Cat (Star (Atom Space))
       (Group 1
          (Cat (Plus (Atom (NotIn [CHR 0x0A, CHR ''*''])))
               (Star (Cat (Atom (Ch (CHR 0x0A)))
                       (Cat (Atom (NotIn [CHR ''*'', CHR 0x0A]))
                            (Star (Atom (NotIn [CHR 0x0A])))))))))))"

text \<open>\<open>/\*\*Concept IDs:\*\*\s*([^\n]+)/i\<close>\<close>

definition concepts_re :: regex where
  "concepts_re =
     Cat (Lit ''**'') (Cat (LitI ''Concept IDs:'') (Cat (Lit ''**'') (Cat (Star (Atom Space))
       (Group 1 (Plus (Atom (NotIn [CHR 0x0A])))))))"

text \<open>\<open>s.split('.')[0]\<close>: the text before the first dot.\<close>

definition before_dot :: "string \<Rightarrow> string" where
  "before_dot s = (case split_char (CHR ''.'') s of [] \<Rightarrow> [] | p # ps \<Rightarrow> p)"

text \<open>
  The loop over the pieces of the \<open>Concept IDs\<close> field: \<open>ids\<close> is the array
  \<open>concepts\<close> built so far, \<open>push\<close> appends.
\<close>

fun push_ids :: "jsnum list \<Rightarrow> string list \<Rightarrow> jsnum list" where
  "push_ids ids [] = ids"
| "push_ids ids (p # parts) =
     (let n = Number (before_dot (trim p))
      in if \<not> isNaN n \<and> js_pos n then push_ids (ids @ [n]) parts
         else push_ids ids parts)"

definition concept_ids_of_field :: "string \<Rightarrow> jsnum list" where
  "concept_ids_of_field fld = push_ids [] (split_char (CHR '','') fld)"

text \<open>
  The fallback loop over the entries of the concept map: no trimming, and only \<open>NaN\<close> is
  dropped.
\<close>

fun push_entries :: "jsnum list \<Rightarrow> string list \<Rightarrow> jsnum list" where
  "push_entries ids [] = ids"
| "push_entries ids (entry # entries) =
     (let n = Number (before_dot entry)
      in if \<not> isNaN n then push_entries (ids @ [n]) entries
         else push_entries ids entries)"

text \<open>
  The concept map is a \<open>Record<number, string[]>\<close>: a partial map from chapter numbers
  to lists of entries. The body of the loop over the blocks: a block without header is
  skipped; \<open>Number\<close> of the digits of the header is their decimal value.
\<close>

definition block_step :: "(nat \<rightharpoonup> string list) \<Rightarrow> ChapterOutline list \<Rightarrow> string \<Rightarrow> ChapterOutline list" where
  "block_step conceptMap outlines block =
     (case re_exec header_re block of
        None \<Rightarrow> outlines
      | Some headerMatch \<Rightarrow>
          let num = radix_val 10 (group headerMatch 1);
              ttl = trim (group headerMatch 2);
              smry = (case re_exec summary_re block of
                        Some summaryMatch \<Rightarrow>
                          trim (map (\<lambda>c. if c = CHR 0x0A then CHR '' '' else c) (group summaryMatch 1))
                      | None \<Rightarrow> []);
              ids = (case re_exec concepts_re block of
                       Some conceptsMatch \<Rightarrow> concept_ids_of_field (group conceptsMatch 1)
                     | None \<Rightarrow> []);
              ids' = (case conceptMap num of
                        Some entries \<Rightarrow> if length ids = 0 then push_entries ids entries else ids
                      | None \<Rightarrow> ids)
          in outlines @ [\<lparr> number = num, title = ttl, summary = smry, concept_ids = ids' \<rparr>])"

text \<open>\<open>raw.split(/---+/g).filter(b => b.trim())\<close>, and the outlines parsed from the blocks.\<close>

definition blocks_of :: "string \<Rightarrow> string list" where
  "blocks_of raw = filter (\<lambda>b. trim b \<noteq> []) (split_re delimiter_re raw)"

definition parsed_outlines :: "string \<Rightarrow> (nat \<rightharpoonup> string list) \<Rightarrow> ChapterOutline list" where
  "parsed_outlines raw conceptMap = foldl (block_step conceptMap) [] (blocks_of raw)"

text \<open>
  The record synthesised for a chapter number that no block carries, and the body of the
  loop that fills the gaps: \<open>found\<close> is the set of numbers computed before the loop.
\<close>

definition default_outline :: "string list \<Rightarrow> (nat \<rightharpoonup> string list) \<Rightarrow> nat \<Rightarrow> ChapterOutline" where
  "default_outline courseTopics conceptMap n =
     (let ttl = (case nth_opt courseTopics (n - 1) of
                   Some t \<Rightarrow> t
                 | None \<Rightarrow> ''Chapter '' @ show_nat n);
          ids = filter (\<lambda>x. \<not> isNaN x)
                  (map (\<lambda>e. Number (before_dot e))
                     (case conceptMap n of Some entries \<Rightarrow> entries | None \<Rightarrow> []))
      in \<lparr> number = n, title = ttl,
           summary = ''Chapter '' @ show_nat n @ '' covers '' @ ttl @ ''.'',
           concept_ids = ids \<rparr>)"

definition gap_step ::
  "nat set \<Rightarrow> string list \<Rightarrow> (nat \<rightharpoonup> string list) \<Rightarrow> ChapterOutline list \<Rightarrow> nat \<Rightarrow> ChapterOutline list" where
  "gap_step found courseTopics conceptMap outlines n =
     (if n \<notin> found then outlines @ [default_outline courseTopics conceptMap n] else outlines)"

text \<open>
  \<open>parseChapterOutlines\<close>. The loop counts \<open>n\<close> from 1 to \<open>chapterCount\<close>.
  \<open>Array.prototype.sort\<close> is stable, and the comparator \<open>a.number - b.number\<close> orders
  by number: the result is the stable sort by number.
\<close>

definition parseChapterOutlines ::
  "string \<Rightarrow> nat \<Rightarrow> string list \<Rightarrow> (nat \<rightharpoonup> string list) \<Rightarrow> ChapterOutline list" where
  "parseChapterOutlines raw chapterCount courseTopics conceptMap =
     (let outlines = parsed_outlines raw conceptMap;
          found = set (map number outlines);
          filled = foldl (gap_step found courseTopics conceptMap) outlines [1..<Suc chapterCount]
      in sort_key number filled)"

text \<open>
  Sample answers of the model: two blocks that both claim chapter 1; blocks for chapters 1
  and 3; one block with a field of concept identifiers.
\<close>

definition raw_dup :: string where
  "raw_dup = ''## Chapter 1: A'' @ [CHR 0x0A] @ ''---'' @ [CHR 0x0A] @ ''## Chapter 1: B''"

definition raw_1_3 :: string where
  "raw_1_3 = ''## Chapter 3: Gamma'' @ [CHR 0x0A] @ ''**Summary:** Last.'' @ [CHR 0x0A] @
             ''-----'' @ [CHR 0x0A] @
             ''## chapter 1: Alpha'' @ [CHR 0x0A] @ ''**Summary:** First'' @ [CHR 0x0A] @ ''things.''"


section \<open>Properties of the learning graph step\<close>

subsection \<open>Substring search\<close>

text \<open>The scans agree with the declarative reading: a prefix, a factor of the string.\<close>

lemma startsWith_iff: "startsWith s pat \<longleftrightarrow> (\<exists>q. s = pat @ q)"
  by (induction s pat rule: startsWith.induct) auto

lemma includes_str_iff: "includes_str s pat \<longleftrightarrow> (\<exists>p q. s = p @ pat @ q)"
proof (induction s)
  case Nil
  then show ?case by simp
next
  case (Cons x xs)
  show ?case
  proof
    assume "includes_str (x # xs) pat"
    then consider "startsWith (x # xs) pat" | "includes_str xs pat" by auto
    then show "\<exists>p q. x # xs = p @ pat @ q"
    proof cases
      case 1
      then obtain q where "x # xs = pat @ q" by (auto simp: startsWith_iff)
      then have "x # xs = [] @ pat @ q" by simp
      then show ?thesis by blast
    next
      case 2
      then obtain p q where "xs = p @ pat @ q" using Cons.IH by blast
      then have "x # xs = (x # p) @ pat @ q" by simp
      then show ?thesis by blast
    qed
  next
    assume "\<exists>p q. x # xs = p @ pat @ q"
    then obtain p q where pq: "x # xs = p @ pat @ q" by blast
    show "includes_str (x # xs) pat"
    proof (cases p)
      case Nil
      with pq have "startsWith (x # xs) pat" by (auto simp: startsWith_iff)
      then show ?thesis by simp
    next
      case (Cons y ys)
      with pq have "xs = ys @ pat @ q" by simp
      then have "includes_str xs pat" using Cons.IH by blast
      then show ?thesis by simp
    qed
  qed
qed


subsection \<open>Taxonomy normalisation\<close>

text \<open>
  C8. Taxonomy normalisation: an input whose lower-case form contains \<open>found\<close> is mapped
  to \<open>Foundation\<close>; any remaining input whose lower-case form contains \<open>adv\<close> is mapped
  to \<open>Advanced\<close>; every other input, unrecognised strings included, is mapped to \<open>Core\<close>.
\<close>

theorem normalizeTaxonomy_cases:
  "((\<exists>p q. toLowerCase raw = p @ ''found'' @ q) \<longrightarrow> normalizeTaxonomy raw = ''Foundation'') \<and>
   (\<not> (\<exists>p q. toLowerCase raw = p @ ''found'' @ q) \<and> (\<exists>p q. toLowerCase raw = p @ ''adv'' @ q)
      \<longrightarrow> normalizeTaxonomy raw = ''Advanced'') \<and>
   (\<not> (\<exists>p q. toLowerCase raw = p @ ''found'' @ q) \<and> \<not> (\<exists>p q. toLowerCase raw = p @ ''adv'' @ q)
      \<longrightarrow> normalizeTaxonomy raw = ''Core'')"
  unfolding normalizeTaxonomy_def Let_def includes_str_iff [symmetric] by simp

text \<open>
  The three branches at the inputs of the specification (\<open>Foundational\<close>,
  \<open>foundation\<close>, \<open>FOUND\<close>), at an advanced label and at an unrecognised one.
\<close>

theorem normalizeTaxonomy_cases_witness:
  "normalizeTaxonomy ''Foundational'' = ''Foundation'' \<and>
   normalizeTaxonomy ''foundation'' = ''Foundation'' \<and>
   normalizeTaxonomy ''FOUND'' = ''Foundation'' \<and>
   normalizeTaxonomy ''Very ADVanced'' = ''Advanced'' \<and>
   normalizeTaxonomy ''Intermediate'' = ''Core''"
proof -
  have f1: "\<exists>p q. toLowerCase ''Foundational'' = p @ ''found'' @ q"
    unfolding includes_str_iff [symmetric] by code_simp
  have f2: "\<exists>p q. toLowerCase ''foundation'' = p @ ''found'' @ q"
    unfolding includes_str_iff [symmetric] by code_simp
  have f3: "\<exists>p q. toLowerCase ''FOUND'' = p @ ''found'' @ q"
    unfolding includes_str_iff [symmetric] by code_simp
  have a1: "\<not> (\<exists>p q. toLowerCase ''Very ADVanced'' = p @ ''found'' @ q)"
    unfolding includes_str_iff [symmetric] by code_simp
  have a2: "\<exists>p q. toLowerCase ''Very ADVanced'' = p @ ''adv'' @ q"
    unfolding includes_str_iff [symmetric] by code_simp
  have c1: "\<not> (\<exists>p q. toLowerCase ''Intermediate'' = p @ ''found'' @ q)"
    unfolding includes_str_iff [symmetric] by code_simp
  have c2: "\<not> (\<exists>p q. toLowerCase ''Intermediate'' = p @ ''adv'' @ q)"
    unfolding includes_str_iff [symmetric] by code_simp
  show ?thesis
    using normalizeTaxonomy_cases [of "''Foundational''"] normalizeTaxonomy_cases [of "''foundation''"]
      normalizeTaxonomy_cases [of "''FOUND''"] normalizeTaxonomy_cases [of "''Very ADVanced''"]
      normalizeTaxonomy_cases [of "''Intermediate''"] f1 f2 f3 a1 a2 c1 c2
    by blast
qed

subsection \<open>The concept table\<close>

lemma nth_opt_eq: "nth_opt xs i = (if i < length xs then Some (xs ! i) else None)"
  by (induction xs i rule: nth_opt.induct) auto

lemma cells_of_nonempty: "c \<in> set (cells_of line) \<Longrightarrow> c \<noteq> []"
  by (simp add: cells_of_def)

lemma row_step_short: "length (cells_of line) < 6 \<Longrightarrow> row_step acc line = acc"
  by (simp add: row_step_def)

lemma row_step_nan:
  assumes "cells_of line = c # cs" and "isNaN (Number c)"
  shows "row_step acc line = acc"
  using assms by (simp add: row_step_def Let_def)

lemma row_step_record:
  assumes "6 \<le> length (cells_of line)" and "\<not> isNaN (Number (cells_of line ! 0))"
  shows "row_step acc line = acc @ [row_record (cells_of line)]"
proof -
  have "0 < length (cells_of line)" using assms(1) by linarith
  then have "cells_of line ! 0 \<in> set (cells_of line)" by (rule nth_mem)
  then have ne: "cells_of line ! 0 \<noteq> []" by (rule cells_of_nonempty)
  have nz: "cells_of line \<noteq> []" using assms(1) by auto
  show ?thesis
    using assms ne nz
    by (simp add: row_step_def Let_def nth_opt_eq or_empty_def Number_u_def row_record_def)
qed

lemma row_step_append: "row_step acc line = acc @ row_step [] line"
proof (cases "length (cells_of line) < 6")
  case True
  then show ?thesis by (simp add: row_step_short)
next
  case False
  then have six: "6 \<le> length (cells_of line)" by simp
  show ?thesis
  proof (cases "isNaN (Number (cells_of line ! 0))")
    case True
    from six obtain c cs where "cells_of line = c # cs" by (cases "cells_of line") auto
    with True show ?thesis by (simp add: row_step_nan)
  next
    case False
    with six show ?thesis by (simp add: row_step_record)
  qed
qed

lemma foldl_row_step: "foldl row_step acc ls = acc @ concat (map (row_step []) ls)"
proof (induction ls arbitrary: acc)
  case Nil
  then show ?case by simp
next
  case (Cons l ls)
  have "foldl row_step acc (l # ls) = foldl row_step (row_step acc l) ls" by simp
  also have "\<dots> = row_step acc l @ concat (map (row_step []) ls)" by (rule Cons.IH)
  also have "\<dots> = acc @ row_step [] l @ concat (map (row_step []) ls)"
    using row_step_append [of acc l] by simp
  finally show ?case by simp
qed







text \<open>
  C5, as stated: a separator line yields a record exactly when its first non-empty trimmed
  cell parses as a number. The line \<open>1|Alpha|1\<close> has a numeric first cell and yields no
  record: a row needs six non-empty cells.
\<close>

theorem parseConceptTable_short_row_counterexample:
  "includes_str ''1|Alpha|1'' ''|'' \<and> cells_of ''1|Alpha|1'' = [''1'', ''Alpha'', ''1''] \<and>
   Number ''1'' = Fin 1 \<and> parseConceptTable ''1|Alpha|1'' = []"
  by code_simp

text \<open>
  C5, amended. The records of the extractor are, in order, those that the separator lines
  yield one by one. A line whose first non-empty trimmed cell does not parse as a number
  (a header, a divider) or that has no such cell yields no record. A line with at least six
  non-empty trimmed cells whose first cell parses as a number yields exactly one record;
  its name is cell 2 and its chapter is the number in cell 3, or 1 when that cell is
  unparseable or zero.
\<close>

theorem parseConceptTable_rows:
  "parseConceptTable raw = concat (map (row_step []) (table_lines raw)) \<and>
   (cells_of line = [] \<longrightarrow> row_step [] line = []) \<and>
   (\<forall>c cs. cells_of line = c # cs \<and> isNaN (Number c) \<longrightarrow> row_step [] line = []) \<and>
   (6 \<le> length (cells_of line) \<and> \<not> isNaN (Number (cells_of line ! 0)) \<longrightarrow>
      row_step [] line = [row_record (cells_of line)] \<and>
      name (row_record (cells_of line)) = cells_of line ! 1 \<and>
      (isNaN (Number (cells_of line ! 2)) \<or> Number (cells_of line ! 2) = Fin 0 \<longrightarrow>
         chapter_c (row_record (cells_of line)) = Fin 1) \<and>
      (\<not> isNaN (Number (cells_of line ! 2)) \<and> Number (cells_of line ! 2) \<noteq> Fin 0 \<longrightarrow>
         chapter_c (row_record (cells_of line)) = Number (cells_of line ! 2)))"
proof (intro conjI)
  show "parseConceptTable raw = concat (map (row_step []) (table_lines raw))"
    by (simp add: parseConceptTable_def foldl_row_step)
  show "cells_of line = [] \<longrightarrow> row_step [] line = []"
    by (simp add: row_step_short)
  show "\<forall>c cs. cells_of line = c # cs \<and> isNaN (Number c) \<longrightarrow> row_step [] line = []"
    using row_step_nan by blast
  show "6 \<le> length (cells_of line) \<and> \<not> isNaN (Number (cells_of line ! 0)) \<longrightarrow>
      row_step [] line = [row_record (cells_of line)] \<and>
      name (row_record (cells_of line)) = cells_of line ! 1 \<and>
      (isNaN (Number (cells_of line ! 2)) \<or> Number (cells_of line ! 2) = Fin 0 \<longrightarrow>
         chapter_c (row_record (cells_of line)) = Fin 1) \<and>
      (\<not> isNaN (Number (cells_of line ! 2)) \<and> Number (cells_of line ! 2) \<noteq> Fin 0 \<longrightarrow>
         chapter_c (row_record (cells_of line)) = Number (cells_of line ! 2))"
    using row_step_record [of line "[]"]
    by (auto simp: row_record_def js_truthy_def isNaN_def)
qed

text \<open>
  The amended statement at a table of a header and two data rows: the header yields
  nothing, the first data row has an unparseable chapter (read as 1), the second a chapter 3;
  a line of separators alone has no cell.
\<close>

theorem parseConceptTable_rows_witness:
  "cells_of ''|||'' = [] \<and> row_step [] ''|||'' = [] \<and>
   cells_of row_hdr = [''ID'', ''Concept'', ''Chapter'', ''Dependencies'', ''Taxonomy'', ''Bloom''] \<and>
   isNaN (Number ''ID'') \<and> row_step [] row_hdr = [] \<and>
   6 \<le> length (cells_of row_1) \<and> \<not> isNaN (Number (cells_of row_1 ! 0)) \<and>
   isNaN (Number (cells_of row_1 ! 2)) \<and>
   chapter_c (row_record (cells_of row_1)) = Fin 1 \<and>
   6 \<le> length (cells_of row_2) \<and> \<not> isNaN (Number (cells_of row_2 ! 0)) \<and>
   \<not> isNaN (Number (cells_of row_2 ! 2)) \<and> Number (cells_of row_2 ! 2) \<noteq> Fin 0 \<and>
   chapter_c (row_record (cells_of row_2)) = Fin 3 \<and>
   parseConceptTable table_0 =
     [\<lparr> id_c = Fin 1, name = ''Alpha'', chapter_c = Fin 1, dependencies = [Fin 3],
        taxonomy = ''Foundation'', bloomLevel = ''Remember'' \<rparr>,
      \<lparr> id_c = Fin 2, name = ''Beta'', chapter_c = Fin 3, dependencies = [Fin 1],
        taxonomy = ''Core'', bloomLevel = ''Apply'' \<rparr>]"
proof -
  have e0: "cells_of ''|||'' = []" by code_simp
  have e1: "row_step [] ''|||'' = []"
    using parseConceptTable_rows [of table_0 "''|||''"] e0 by blast
  have c0: "cells_of row_hdr = [''ID'', ''Concept'', ''Chapter'', ''Dependencies'', ''Taxonomy'', ''Bloom'']"
    by code_simp
  have n0: "isNaN (Number ''ID'')" by code_simp
  have r0: "row_step [] row_hdr = []"
    using parseConceptTable_rows [of table_0 row_hdr] c0 n0 by blast
  have l1: "6 \<le> length (cells_of row_1)" by code_simp
  have n1: "\<not> isNaN (Number (cells_of row_1 ! 0))" by code_simp
  have n2: "isNaN (Number (cells_of row_1 ! 2))" by code_simp
  have r1: "row_step [] row_1 = [row_record (cells_of row_1)]"
    using parseConceptTable_rows [of table_0 row_1] l1 n1 by blast
  have ch1: "chapter_c (row_record (cells_of row_1)) = Fin 1"
    using parseConceptTable_rows [of table_0 row_1] l1 n1 n2 by blast
  have l2: "6 \<le> length (cells_of row_2)" by code_simp
  have m1: "\<not> isNaN (Number (cells_of row_2 ! 0))" by code_simp
  have m2: "\<not> isNaN (Number (cells_of row_2 ! 2))" by code_simp
  have m3: "Number (cells_of row_2 ! 2) \<noteq> Fin 0" by code_simp
  have m4: "Number (cells_of row_2 ! 2) = Fin 3" by code_simp
  have r2: "row_step [] row_2 = [row_record (cells_of row_2)]"
    using parseConceptTable_rows [of table_0 row_2] l2 m1 by blast
  have ch2: "chapter_c (row_record (cells_of row_2)) = Fin 3"
    using parseConceptTable_rows [of table_0 row_2] l2 m1 m2 m3 m4 by metis
  have v1: "row_record (cells_of row_1) =
     \<lparr> id_c = Fin 1, name = ''Alpha'', chapter_c = Fin 1, dependencies = [Fin 3],
        taxonomy = ''Foundation'', bloomLevel = ''Remember'' \<rparr>"
    by code_simp
  have v2: "row_record (cells_of row_2) =
     \<lparr> id_c = Fin 2, name = ''Beta'', chapter_c = Fin 3, dependencies = [Fin 1],
        taxonomy = ''Core'', bloomLevel = ''Apply'' \<rparr>"
    by code_simp
  have tl: "table_lines table_0 = [row_hdr, row_1, row_2]" by code_simp
  have "parseConceptTable table_0 = concat (map (row_step []) (table_lines table_0))"
    using parseConceptTable_rows [of table_0 row_1] by blast
  then have p: "parseConceptTable table_0 = [row_record (cells_of row_1), row_record (cells_of row_2)]"
    by (simp add: tl r0 r1 r2)
  show ?thesis
    using e0 e1 c0 n0 r0 l1 n1 n2 ch1 l2 m1 m2 m3 ch2 p v1 v2 by simp
qed

text \<open>
  What the dependency filter does ensure: every kept identifier is a number, positive and
  different from the row's own identifier.
\<close>

lemma parse_dependencies_sound:
  "n \<in> set (parse_dependencies ident depsStr) \<Longrightarrow> n \<noteq> NaN \<and> js_pos n \<and> n \<noteq> ident"
  by (auto simp: parse_dependencies_def isNaN_def js_strict_eq_def)

text \<open>
  C1. Every identifier of a record's dependency list is strictly less than the record's own
  identifier, forward references being dropped like self-references. The filter of
  \<open>parseConceptTable\<close> tests \<open>n !== id\<close> only: on a table whose rows 1 and 2 name each
  other, row 1 keeps the forward reference to 2 (row 2 loses its self-reference), and the
  two records form a cycle.
\<close>

theorem parseConceptTable_forward_reference:
  "parseConceptTable table_cycle =
     [\<lparr> id_c = Fin 1, name = ''Alpha'', chapter_c = Fin 1, dependencies = [Fin 2],
        taxonomy = ''Core'', bloomLevel = ''Apply'' \<rparr>,
      \<lparr> id_c = Fin 2, name = ''Beta'', chapter_c = Fin 1, dependencies = [Fin 1],
        taxonomy = ''Core'', bloomLevel = ''Apply'' \<rparr>]"
  by code_simp

section \<open>Properties of the orchestrator\<close>

lemma calls_append: "calls (a @ b) = calls a @ calls b"
  by (induction a rule: calls.induct) auto












section \<open>Properties of the generation service and of the chapter content step\<close>

lemma generate_world:
  "snd (generate svc p opts w) = w\<lparr> api_calls := api_calls w @ [request_of p opts] \<rparr>"
  by (simp add: generate_def Let_def)

lemma nth_call_0:
  "nth_call svc (p # ps) options w 0 = fst (generate svc (prompt p) (call_options options p) w)"
  by (simp add: nth_call_def)

lemma nth_call_Suc:
  "nth_call svc (p # ps) options w (Suc i) =
     nth_call svc ps options (snd (generate svc (prompt p) (call_options options p) w)) i"
  by (simp add: nth_call_def generate_world)

lemma issue_all_eq:
  "issue_all svc ps options w =
     (map (nth_call svc ps options w) [0..<length ps],
      w\<lparr> api_calls := api_calls w @ map (\<lambda>p. request_of (prompt p) (call_options options p)) ps \<rparr>)"
proof (induction ps arbitrary: w)
  case Nil
  then show ?case by simp
next
  case (Cons p ps)
  obtain r w1 where g: "generate svc (prompt p) (call_options options p) w = (r, w1)"
    by (cases "generate svc (prompt p) (call_options options p) w") auto
  have w1: "w1 = w\<lparr> api_calls := api_calls w @ [request_of (prompt p) (call_options options p)] \<rparr>"
    using generate_world [of svc "prompt p" "call_options options p" w] g by simp
  have r: "r = nth_call svc (p # ps) options w 0" using g by (simp add: nth_call_0)
  have shift: "map (nth_call svc (p # ps) options w) [0..<length (p # ps)] =
      nth_call svc (p # ps) options w 0 # map (nth_call svc ps options w1) [0..<length ps]"
    using g by (simp add: map_upt_Suc nth_call_Suc del: upt_Suc)
  show ?case
    using g Cons.IH [of w1] shift r w1 by simp
qed

lemma all_fulfilled:
  assumes "\<forall>i<length ps. \<exists>v. snd (ps ! i) = Inr v"
  shows "earliest_rejection ps = None \<and> length (fulfilled_values ps) = length ps \<and>
         (\<forall>i<length ps. snd (ps ! i) = Inr (fulfilled_values ps ! i))"
  using assms
proof (induction ps rule: fulfilled_values.induct)
  case 1
  then show ?case by simp
next
  case (2 t v ps)
  have "\<forall>i<length ps. \<exists>v. snd (ps ! i) = Inr v"
  proof (intro allI impI)
    fix i assume "i < length ps"
    then have "Suc i < length ((t, Inr v) # ps)" by simp
    with "2.prems" have "\<exists>v'. snd (((t, Inr v) # ps) ! Suc i) = Inr v'" by blast
    then show "\<exists>v. snd (ps ! i) = Inr v" by simp
  qed
  with "2.IH" have ih: "earliest_rejection ps = None" "length (fulfilled_values ps) = length ps"
    "\<forall>i<length ps. snd (ps ! i) = Inr (fulfilled_values ps ! i)" by auto
  show ?case
  proof (intro conjI allI impI)
    show "earliest_rejection ((t, Inr v) # ps) = None" using ih(1) by simp
    show "length (fulfilled_values ((t, Inr v) # ps)) = length ((t, Inr v) # ps)" using ih(2) by simp
    fix i assume "i < length ((t, Inr v) # ps)"
    then show "snd (((t, Inr v) # ps) ! i) = Inr (fulfilled_values ((t, Inr v) # ps) ! i)"
      using ih(3) by (cases i) auto
  qed
next
  case (3 t e ps)
  have "0 < length ((t, Inl e) # ps)" by simp
  with "3.prems" have "\<exists>v. snd (((t, Inl e) # ps) ! 0) = Inr v" by blast
  then show ?case by simp
qed

lemma some_rejected:
  assumes "i < length ps" and "snd (ps ! i) = Inl e"
  shows "\<exists>t' e'. earliest_rejection ps = Some (t', e') \<and> (t', Inl e') \<in> set ps"
  using assms
proof (induction ps arbitrary: i rule: earliest_rejection.induct)
  case 1
  then show ?case by simp
next
  case (2 t v ps)
  then obtain j where "i = Suc j" by (cases i) auto
  with "2.prems" have "j < length ps" "snd (ps ! j) = Inl e" by auto
  with "2.IH" show ?case by auto
next
  case (3 t e0 ps)
  show ?case
  proof (cases "earliest_rejection ps")
    case None
    then show ?thesis by simp
  next
    case (Some a)
    obtain t' e' where a: "a = (t', e')" by (cases a) auto
    have "(t', Inl e') \<in> set ps"
    proof -
      have "\<And>qs t e. earliest_rejection qs = Some (t, e) \<Longrightarrow> (t, Inl e) \<in> set qs"
      proof -
        fix qs :: "'b settled list" and t e
        show "earliest_rejection qs = Some (t, e) \<Longrightarrow> (t, Inl e) \<in> set qs"
          by (induction qs rule: earliest_rejection.induct)
             (auto split: option.splits if_splits)
      qed
      then show ?thesis using Some a by blast
    qed
    then show ?thesis using Some a by auto
  qed
qed

text \<open>
  C6. For every list of \<open>n \<ge> 0\<close> prompts, \<open>generateParallel\<close> returns exactly \<open>n\<close>
  results aligned with the inputs (result \<open>i\<close> is the text generated for prompt \<open>i\<close>)
  whenever every underlying \<open>generate\<close> call succeeds, and the aggregate call fails
  whenever one underlying call fails.
\<close>

theorem generateParallel_aligned:
  "((\<forall>i<length prompts. \<exists>txt. snd (nth_call svc prompts options w i) = Inr txt) \<longrightarrow>
      (\<exists>texts. fst (generateParallel svc prompts options w) = Inr texts \<and>
         length texts = length prompts \<and>
         (\<forall>i<length prompts. snd (nth_call svc prompts options w i) = Inr (texts ! i)))) \<and>
   ((\<exists>i<length prompts. \<exists>e. snd (nth_call svc prompts options w i) = Inl e) \<longrightarrow>
      (\<exists>e. fst (generateParallel svc prompts options w) = Inl e))"
proof -
  let ?rs = "map (nth_call svc prompts options w) [0..<length prompts]"
  have G: "fst (generateParallel svc prompts options w) = Promise_all ?rs"
    by (simp add: generateParallel_def issue_all_eq)
  have len: "length ?rs = length prompts" by simp
  have nth: "\<And>i. i < length prompts \<Longrightarrow> ?rs ! i = nth_call svc prompts options w i" by simp
  show ?thesis
  proof (intro conjI impI)
    assume ok: "\<forall>i<length prompts. \<exists>txt. snd (nth_call svc prompts options w i) = Inr txt"
    then have "\<forall>i<length ?rs. \<exists>v. snd (?rs ! i) = Inr v" using nth len by simp
    from all_fulfilled [OF this]
    have f: "earliest_rejection ?rs = None" "length (fulfilled_values ?rs) = length prompts"
      "\<forall>i<length prompts. snd (nth_call svc prompts options w i) = Inr (fulfilled_values ?rs ! i)"
      using nth len by auto
    have "fst (generateParallel svc prompts options w) = Inr (fulfilled_values ?rs)"
      using G f(1) by (simp add: Promise_all_def)
    with f(2,3) show "\<exists>texts. fst (generateParallel svc prompts options w) = Inr texts \<and>
         length texts = length prompts \<and>
         (\<forall>i<length prompts. snd (nth_call svc prompts options w i) = Inr (texts ! i))"
      by blast
  next
    assume "\<exists>i<length prompts. \<exists>e. snd (nth_call svc prompts options w i) = Inl e"
    then obtain i e where i: "i < length prompts" "snd (nth_call svc prompts options w i) = Inl e"
      by blast
    then have "i < length ?rs" "snd (?rs ! i) = Inl e" using nth len by auto
    from some_rejected [OF this] obtain t' e' where "earliest_rejection ?rs = Some (t', e')"
      by blast
    then show "\<exists>e. fst (generateParallel svc prompts options w) = Inl e"
      using G by (simp add: Promise_all_def)
  qed
qed

text \<open>
  Three prompts answered by the echoing service; the same prompts when the second request
  is rejected; no prompt at all.
\<close>

theorem generateParallel_aligned_witness:
  "snd (nth_call svc_echo prompts_3 options_0 world_0 0) = Inr ''re: a'' \<and>
   snd (nth_call svc_echo prompts_3 options_0 world_0 1) = Inr ''re: b'' \<and>
   snd (nth_call svc_echo prompts_3 options_0 world_0 2) = Inr ''re: c'' \<and>
   (\<exists>texts. fst (generateParallel svc_echo prompts_3 options_0 world_0) = Inr texts \<and>
      length texts = 3 \<and> texts ! 0 = ''re: a'' \<and> texts ! 1 = ''re: b'' \<and> texts ! 2 = ''re: c'') \<and>
   snd (nth_call svc_fail2 prompts_3 options_0 world_0 1) = Inl (Error ''overloaded'') \<and>
   (\<exists>e. fst (generateParallel svc_fail2 prompts_3 options_0 world_0) = Inl e) \<and>
   fst (generateParallel svc_echo [] options_0 world_0) = Inr []"
proof -
  have l: "length prompts_3 = 3" by (simp add: prompts_3_def)
  have c0: "snd (nth_call svc_echo prompts_3 options_0 world_0 0) = Inr ''re: a''" by code_simp
  have c1: "snd (nth_call svc_echo prompts_3 options_0 world_0 1) = Inr ''re: b''" by code_simp
  have c2: "snd (nth_call svc_echo prompts_3 options_0 world_0 2) = Inr ''re: c''" by code_simp
  have all: "\<forall>i<length prompts_3. \<exists>txt. snd (nth_call svc_echo prompts_3 options_0 world_0 i) = Inr txt"
  proof (intro allI impI)
    fix i assume "i < length prompts_3"
    then have "i = 0 \<or> i = 1 \<or> i = 2" using l by auto
    then show "\<exists>txt. snd (nth_call svc_echo prompts_3 options_0 world_0 i) = Inr txt"
      using c0 c1 c2 by auto
  qed
  from generateParallel_aligned [of prompts_3 svc_echo options_0 world_0] all
  obtain texts where t: "fst (generateParallel svc_echo prompts_3 options_0 world_0) = Inr texts"
    "length texts = length prompts_3"
    "\<forall>i<length prompts_3. snd (nth_call svc_echo prompts_3 options_0 world_0 i) = Inr (texts ! i)"
    by blast
  have t0: "texts ! 0 = ''re: a''" using t(3) l c0 by auto
  have t1: "texts ! 1 = ''re: b''" using t(3) l c1 by auto
  have t2: "texts ! 2 = ''re: c''" using t(3) l c2 by auto
  have ok: "\<exists>texts. fst (generateParallel svc_echo prompts_3 options_0 world_0) = Inr texts \<and>
      length texts = 3 \<and> texts ! 0 = ''re: a'' \<and> texts ! 1 = ''re: b'' \<and> texts ! 2 = ''re: c''"
    using t(1,2) l t0 t1 t2 by auto
  have f1: "snd (nth_call svc_fail2 prompts_3 options_0 world_0 1) = Inl (Error ''overloaded'')"
    by code_simp
  then have "\<exists>i<length prompts_3. \<exists>e. snd (nth_call svc_fail2 prompts_3 options_0 world_0 i) = Inl e"
    using l by (intro exI [of _ 1]) simp
  with generateParallel_aligned [of prompts_3 svc_fail2 options_0 world_0]
  have bad: "\<exists>e. fst (generateParallel svc_fail2 prompts_3 options_0 world_0) = Inl e" by blast
  have "\<forall>i<length ([]::prompt_item list). \<exists>txt. snd (nth_call svc_echo [] options_0 world_0 i) = Inr txt"
    by simp
  with generateParallel_aligned [of "[]" svc_echo options_0 world_0]
  have emp: "fst (generateParallel svc_echo [] options_0 world_0) = Inr []" by auto
  show ?thesis using c0 c1 c2 ok f1 bad emp by blast
qed

lemma generateParallel_world:
  "snd (generateParallel svc ps options w) =
     w\<lparr> api_calls := api_calls w @ map (\<lambda>p. request_of (prompt p) (call_options options p)) ps \<rparr>"
  by (simp add: generateParallel_def issue_all_eq)

lemma earliest_rejection_mem:
  "earliest_rejection qs = Some (t, e) \<Longrightarrow> (t, Inl e) \<in> set qs"
  by (induction qs rule: earliest_rejection.induct) (auto split: option.splits if_splits)

lemma Promise_all_error:
  "Promise_all qs = Inl e \<Longrightarrow> \<exists>t. (t, Inl e) \<in> set qs"
  by (auto simp: Promise_all_def split: option.splits dest: earliest_rejection_mem)

lemma generate_error:
  assumes "snd (fst (generate svc p opts w)) = Inl e"
  shows "\<exists>n req t. svc n req = (t, Inl e)"
proof -
  let ?a = "svc (length (api_calls w)) (request_of p opts)"
  have "snd ?a = Inl e"
    using assms by (simp add: generate_def Let_def split: sum.splits)
  then have "?a = (fst ?a, Inl e)" by (metis prod.collapse)
  then show ?thesis by blast
qed

lemma generateParallel_error:
  assumes "fst (generateParallel svc ps options w) = Inl e"
  shows "\<exists>n req t. svc n req = (t, Inl e)"
proof -
  let ?rs = "map (nth_call svc ps options w) [0..<length ps]"
  have "Promise_all ?rs = Inl e"
    using assms by (simp add: generateParallel_def issue_all_eq)
  then obtain t where "(t, Inl e) \<in> set ?rs" using Promise_all_error by blast
  then obtain i where "nth_call svc ps options w i = (t, Inl e)" by auto
  then have "snd (nth_call svc ps options w i) = Inl e" by simp
  then show ?thesis unfolding nth_call_def by (rule generate_error)
qed

lemma fs_call_calls: "api_calls (snd (fs_call fsys op w)) = api_calls w"
  by (simp add: fs_call_def Let_def)

lemma fs_call_error:
  assumes "snd (fst (fs_call fsys op w)) = Inl e"
  shows "\<exists>n op' t. fsys n op' = (t, Some e)"
proof -
  let ?a = "fsys (length (fs_ops w)) op"
  have "snd ?a = Some e"
    using assms by (simp add: fs_call_def Let_def split: option.splits)
  then have "?a = (fst ?a, Some e)" by (metis prod.collapse)
  then show ?thesis by blast
qed

lemma write_all_calls:
  "api_calls (snd (write_all fsys dir results chs i w)) = api_calls w"
proof (induction chs arbitrary: i w)
  case Nil
  then show ?case by simp
next
  case (Cons ch chs)
  obtain r w1 where f: "fs_call fsys (chapter_file dir results ch i) w = (r, w1)"
    by (cases "fs_call fsys (chapter_file dir results ch i) w") auto
  obtain rs w2 where g: "write_all fsys dir results chs (i + 1) w1 = (rs, w2)"
    by (cases "write_all fsys dir results chs (i + 1) w1") auto
  have "api_calls w1 = api_calls w"
    using fs_call_calls [of fsys "chapter_file dir results ch i" w] f by simp
  moreover have "api_calls w2 = api_calls w1"
    using Cons.IH [of "i + 1" w1] g by simp
  ultimately show ?case using f g by simp
qed

lemma write_all_error:
  "(t, Inl e) \<in> set (fst (write_all fsys dir results chs i w)) \<Longrightarrow>
     \<exists>n op' t'. fsys n op' = (t', Some e)"
proof (induction chs arbitrary: i w)
  case Nil
  then show ?case by simp
next
  case (Cons ch chs)
  obtain r w1 where f: "fs_call fsys (chapter_file dir results ch i) w = (r, w1)"
    by (cases "fs_call fsys (chapter_file dir results ch i) w") auto
  obtain rs w2 where g: "write_all fsys dir results chs (i + 1) w1 = (rs, w2)"
    by (cases "write_all fsys dir results chs (i + 1) w1") auto
  from Cons.prems f g have "r = (t, Inl e) \<or> (t, Inl e) \<in> set rs" by auto
  then show ?case
  proof
    assume "r = (t, Inl e)"
    then have "snd (fst (fs_call fsys (chapter_file dir results ch i) w)) = Inl e"
      using f by simp
    then show ?thesis by (rule fs_call_error)
  next
    assume "(t, Inl e) \<in> set rs"
    then have "(t, Inl e) \<in> set (fst (write_all fsys dir results chs (i + 1) w1))"
      using g by simp
    then show ?thesis by (rule Cons.IH)
  qed
qed

lemma generateChapterContent_empty:
  assumes "chapters ctx = None \<or> chapters ctx = Some []"
  shows "generateChapterContent svc fsys bcp ctx w = (Inl (Error ''Chapter structure must be generated before chapter content.''), w)"
  using assms by (auto simp: generateChapterContent_def Let_def)

lemma generateChapterContent_proceeds:
  assumes "chapters ctx = Some chs" and "chs \<noteq> []"
  shows "length (api_calls (snd (generateChapterContent svc fsys bcp ctx w))) =
           length (api_calls w) + length chs"
    and "fst (generateChapterContent svc fsys bcp ctx w) = Inl e \<Longrightarrow>
           (\<exists>n req t. svc n req = (t, Inl e)) \<or> (\<exists>n op t. fsys n op = (t, Some e))"
proof -
  let ?ttl = "case courseDescription ctx of None \<Rightarrow> topic (config ctx) | Some cd \<Rightarrow> cd_title cd"
  let ?cpts = "case concepts ctx of None \<Rightarrow> [] | Some c \<Rightarrow> c"
  let ?prompts = "map (\<lambda>ch. \<lparr> prompt = bcp ch ?cpts ?ttl (topic (config ctx)),
                                     p_system = Some SYSTEM_chapter_content \<rparr>) chs"
  let ?opts = "\<lparr> opt_system = None, opt_model = Some (model (config ctx)), opt_maxTokens = Some (Fin 16384) \<rparr>"
  let ?dir = "[outputDir ctx, ''docs'', ''chapters'']"
  obtain res w1 where gp: "generateParallel svc ?prompts ?opts w = (res, w1)"
    by (cases "generateParallel svc ?prompts ?opts w") auto
  have w1: "length (api_calls w1) = length (api_calls w) + length chs"
    using generateParallel_world [of svc ?prompts ?opts w] gp by simp
  have unfold: "generateChapterContent svc fsys bcp ctx w =
      (case res of
         Inl e \<Rightarrow> (Inl e, w1)
       | Inr results \<Rightarrow>
           (case fs_call fsys (Mkdir ?dir) w1 of
              ((t, Inl e), w2) \<Rightarrow> (Inl e, w2)
            | ((t, Inr u), w2) \<Rightarrow>
                (case write_all fsys ?dir results chs 0 w2 of
                   (ws, w3) \<Rightarrow>
                     (case Promise_all ws of
                        Inl e \<Rightarrow> (Inl e, w3)
                      | Inr us \<Rightarrow> (Inr (), w3)))))"
    using assms gp by (simp add: generateChapterContent_def Let_def split: sum.splits)
  show "length (api_calls (snd (generateChapterContent svc fsys bcp ctx w))) =
           length (api_calls w) + length chs"
  proof (cases res)
    case (Inl e')
    then show ?thesis using unfold w1 by simp
  next
    case (Inr results)
    obtain t mr w2 where mk: "fs_call fsys (Mkdir ?dir) w1 = ((t, mr), w2)"
      by (cases "fs_call fsys (Mkdir ?dir) w1") auto
    have w2: "api_calls w2 = api_calls w1"
      using fs_call_calls [of fsys "Mkdir ?dir" w1] mk by simp
    show ?thesis
    proof (cases mr)
      case (Inl e')
      then show ?thesis using unfold Inr mk w1 w2 by simp
    next
      case (Inr u)
      obtain ws w3 where wa: "write_all fsys ?dir results chs 0 w2 = (ws, w3)"
        by (cases "write_all fsys ?dir results chs 0 w2") auto
      have w3: "api_calls w3 = api_calls w2"
        using write_all_calls [of fsys ?dir results chs 0 w2] wa by simp
      show ?thesis
        using unfold \<open>res = Inr results\<close> mk Inr wa w1 w2 w3
        by (simp split: sum.splits)
    qed
  qed
  show "(\<exists>n req t. svc n req = (t, Inl e)) \<or> (\<exists>n op t. fsys n op = (t, Some e))"
    if fail: "fst (generateChapterContent svc fsys bcp ctx w) = Inl e"
  proof (cases res)
    case (Inl e')
    with unfold fail have "e' = e" by simp
    with Inl gp have "fst (generateParallel svc ?prompts ?opts w) = Inl e" by simp
    then show ?thesis using generateParallel_error by blast
  next
    case (Inr results)
    obtain t mr w2 where mk: "fs_call fsys (Mkdir ?dir) w1 = ((t, mr), w2)"
      by (cases "fs_call fsys (Mkdir ?dir) w1") auto
    show ?thesis
    proof (cases mr)
      case (Inl e')
      with unfold fail \<open>res = Inr results\<close> mk have "e' = e" by simp
      with Inl mk have "snd (fst (fs_call fsys (Mkdir ?dir) w1)) = Inl e" by simp
      then show ?thesis using fs_call_error by blast
    next
      case (Inr u)
      obtain ws w3 where wa: "write_all fsys ?dir results chs 0 w2 = (ws, w3)"
        by (cases "write_all fsys ?dir results chs 0 w2") auto
      have "Promise_all ws = Inl e"
        using unfold fail \<open>res = Inr results\<close> mk Inr wa by (simp split: sum.splits)
      then obtain t' where "(t', Inl e) \<in> set ws" using Promise_all_error by blast
      then have "(t', Inl e) \<in> set (fst (write_all fsys ?dir results chs 0 w2))"
        using wa by simp
      then show ?thesis using write_all_error by blast
    qed
  qed
qed

text \<open>
  C10. The chapter content stage raises the error \<open>Chapter structure must be generated
  before chapter content.\<close> whenever the chapter-outline slot of its context is absent or
  empty, and it does so before issuing any call to the generation service or writing any
  file: the world is returned as it was. For a context with at least one chapter outline it
  proceeds without this error: it issues one request per outline, and if it fails at all,
  it fails with an error that the service or the file system raised.
\<close>

theorem generateChapterContent_guard:
  "((chapters ctx = None \<or> chapters ctx = Some []) \<longrightarrow>
      generateChapterContent svc fsys bcp ctx w = (Inl (Error ''Chapter structure must be generated before chapter content.''), w)) \<and>
   (\<forall>chs. chapters ctx = Some chs \<and> chs \<noteq> [] \<longrightarrow>
      length (api_calls (snd (generateChapterContent svc fsys bcp ctx w))) =
        length (api_calls w) + length chs \<and>
      (\<forall>e. fst (generateChapterContent svc fsys bcp ctx w) = Inl e \<longrightarrow>
         (\<exists>n req t. svc n req = (t, Inl e)) \<or> (\<exists>n op t. fsys n op = (t, Some e))))"
  using generateChapterContent_empty [of ctx svc fsys bcp w]
    generateChapterContent_proceeds [of ctx _ svc fsys bcp w]
  by blast

text \<open>
  A context without chapters and one with an empty list are refused with the world
  untouched; a context with two outlines issues two requests and succeeds, or fails with
  the error of the service.
\<close>

theorem generateChapterContent_guard_witness:
  "chapters ctx_empty = None \<and>
   generateChapterContent svc_echo fsys_ok bcp_title ctx_empty world_0 = (Inl (Error ''Chapter structure must be generated before chapter content.''), world_0) \<and>
   chapters (ctx_empty \<lparr> chapters := Some [] \<rparr>) = Some [] \<and>
   generateChapterContent svc_echo fsys_ok bcp_title (ctx_empty \<lparr> chapters := Some [] \<rparr>) world_0 =
     (Inl (Error ''Chapter structure must be generated before chapter content.''), world_0) \<and>
   (\<exists>chs. chapters ctx_two = Some chs \<and> chs \<noteq> [] \<and> length chs = 2) \<and>
   length (api_calls (snd (generateChapterContent svc_echo fsys_ok bcp_title ctx_two world_0))) = 2 \<and>
   fst (generateChapterContent svc_echo fsys_ok bcp_title ctx_two world_0) = Inr () \<and>
   fst (generateChapterContent svc_fail2 fsys_ok bcp_title ctx_two world_0) = Inl (Error ''overloaded'') \<and>
   (\<exists>n req t. svc_fail2 n req = (t, Inl (Error ''overloaded'')))"
proof -
  have e1: "chapters ctx_empty = None" by (simp add: ctx_empty_def)
  have e2: "chapters (ctx_empty \<lparr> chapters := Some [] \<rparr>) = Some []" by simp
  have g1: "generateChapterContent svc_echo fsys_ok bcp_title ctx_empty world_0 = (Inl (Error ''Chapter structure must be generated before chapter content.''), world_0)"
    using generateChapterContent_guard [of ctx_empty svc_echo fsys_ok bcp_title world_0] e1 by blast
  have g2: "generateChapterContent svc_echo fsys_ok bcp_title (ctx_empty \<lparr> chapters := Some [] \<rparr>) world_0 =
     (Inl (Error ''Chapter structure must be generated before chapter content.''), world_0)"
    using generateChapterContent_guard [of "ctx_empty \<lparr> chapters := Some [] \<rparr>" svc_echo fsys_ok bcp_title world_0] e2
    by blast
  obtain chs where chs: "chapters ctx_two = Some chs" "chs \<noteq> []" "length chs = 2"
    by (simp add: ctx_two_def)
  have w0: "length (api_calls world_0) = 0" by (simp add: world_0_def)
  have n: "length (api_calls (snd (generateChapterContent svc_echo fsys_ok bcp_title ctx_two world_0))) = 2"
    using generateChapterContent_guard [of ctx_two svc_echo fsys_ok bcp_title world_0] chs w0 by auto
  have ok: "fst (generateChapterContent svc_echo fsys_ok bcp_title ctx_two world_0) = Inr ()"
    by code_simp
  have bad: "fst (generateChapterContent svc_fail2 fsys_ok bcp_title ctx_two world_0) = Inl (Error ''overloaded'')"
    by code_simp
  have nofs: "\<not> (\<exists>n op t. fsys_ok n op = (t, Some (Error ''overloaded'')))"
    by (simp add: fsys_ok_def)
  have src: "\<exists>n req t. svc_fail2 n req = (t, Inl (Error ''overloaded''))"
    using generateChapterContent_guard [of ctx_two svc_fail2 fsys_ok bcp_title world_0] chs(1,2) bad nofs
    by blast
  show ?thesis using e1 e2 g1 g2 chs n ok bad src by blast
qed

section \<open>Properties of the chapter structure step\<close>

subsection \<open>The field of concept identifiers\<close>


lemma push_entries_eq:
  "push_entries acc es = acc @ filter (\<lambda>n. \<not> isNaN n) (map (\<lambda>e. Number (before_dot e)) es)"
  by (induction es arbitrary: acc) (auto simp: Let_def)









subsection \<open>Completeness of the outlines\<close>

lemma number_default_outline: "number (default_outline tps cmap n) = n"
  by (simp add: default_outline_def Let_def)

lemma foldl_gap_step:
  "foldl (gap_step F tps cmap) acc ns =
     acc @ map (default_outline tps cmap) (filter (\<lambda>n. n \<notin> F) ns)"
  by (induction ns arbitrary: acc) (auto simp: gap_step_def)

lemma distinct_map_insort:
  "distinct (map f (insort_key f x xs)) = (f x \<notin> f ` set xs \<and> distinct (map f xs))"
  by (induction xs) (auto simp: set_insort_key)

lemma distinct_map_sort_key: "distinct (map f (sort_key f xs)) = distinct (map f xs)"
  by (induction xs) (auto simp: sort_key_simps distinct_map_insort)

lemma filter_eq_upt:
  "a \<le> n \<Longrightarrow> n < b \<Longrightarrow> filter (\<lambda>k. k = n) [a..<b] = [n]"
proof (induction b)
  case 0
  then show ?case by simp
next
  case (Suc b)
  show ?case
  proof (cases "n = b")
    case True
    have "filter (\<lambda>k. k = n) [a..<b] = []" using True by (simp add: filter_empty_conv)
    with True Suc.prems show ?thesis by simp
  next
    case False
    with Suc.prems have "n < b" by simp
    with Suc.IH Suc.prems(1) have "filter (\<lambda>k. k = n) [a..<b] = [n]" by simp
    with False \<open>n < b\<close> Suc.prems(1) show ?thesis by simp
  qed
qed

lemma filter_eq_map_upt:
  assumes "1 \<le> n" and "n \<le> N" and "n \<notin> F"
  shows "filter (\<lambda>x. number x = n)
           (map (default_outline tps cmap) (filter (\<lambda>k. k \<notin> F) [1..<Suc N])) =
         [default_outline tps cmap n]"
proof -
  have "filter (\<lambda>x. number x = n)
           (map (default_outline tps cmap) (filter (\<lambda>k. k \<notin> F) [1..<Suc N])) =
        map (default_outline tps cmap) (filter (\<lambda>k. k = n) (filter (\<lambda>k. k \<notin> F) [1..<Suc N]))"
    by (simp add: filter_map comp_def number_default_outline)
  also have "filter (\<lambda>k. k = n) (filter (\<lambda>k. k \<notin> F) [1..<Suc N]) =
             filter (\<lambda>k. k = n) [1..<Suc N]"
    using assms(3) by (simp add: conj_commute cong: conj_cong)
  also have "filter (\<lambda>k. k = n) [1..<Suc N] = [n]"
    using assms(1,2) by (intro filter_eq_upt) auto
  finally show ?thesis by simp
qed

lemma parseChapterOutlines_eq:
  "parseChapterOutlines raw N tps cmap =
     sort_key number
       (parsed_outlines raw cmap @
        map (default_outline tps cmap)
          (filter (\<lambda>n. n \<notin> number ` set (parsed_outlines raw cmap)) [1..<Suc N]))"
  by (simp add: parseChapterOutlines_def Let_def foldl_gap_step)

lemma filter_defaults_found:
  assumes "n \<in> F"
  shows "filter (\<lambda>x. number x = n) (map (default_outline tps cmap) (filter (\<lambda>k. k \<notin> F) ks)) = []"
  using assms by (auto simp: filter_empty_conv number_default_outline)

text \<open>
  C2, as stated: exactly one record per chapter number from 1 to \<open>N\<close>, without
  duplicates. For \<open>N = 1\<close> and a text of two blocks that both claim chapter 1, the result
  holds both.
\<close>

theorem parseChapterOutlines_duplicate_counterexample:
  "map number (parseChapterOutlines raw_dup 1 [] Map.empty) = [1, 1] \<and>
   map title (parseChapterOutlines raw_dup 1 [] Map.empty) = [''A'', ''B'']"
  by code_simp

text \<open>
  C2, amended. For every input text, required total \<open>N\<close>, list of fallback titles and
  concept map, the chapter-outline extractor returns a list sorted ascending by chapter
  number that holds at least one record for every chapter number from 1 to \<open>N\<close>. A number
  of that range that no parsed block carries occurs exactly once, as the synthesised
  record: its title is the fallback title for that number, or \<open>Chapter n\<close> when the list is
  too short, and its concepts are read from the entries of the concept map (none when the
  map has no entry). The records parsed from the input are all kept, in the order of the
  text among those of the same number. When the parsed blocks carry pairwise different
  numbers, all from 1 to \<open>N\<close>, the result has exactly one record per chapter number
  \<open>1, \<dots>, N\<close>.
\<close>

theorem parseChapterOutlines_complete:
  "sorted (map number (parseChapterOutlines raw N tps cmap)) \<and>
   (\<forall>n. 1 \<le> n \<and> n \<le> N \<longrightarrow>
      (\<exists>x. x \<in> set (parseChapterOutlines raw N tps cmap) \<and> number x = n)) \<and>
   (\<forall>n. 1 \<le> n \<and> n \<le> N \<and> n \<notin> number ` set (parsed_outlines raw cmap) \<longrightarrow>
      filter (\<lambda>x. number x = n) (parseChapterOutlines raw N tps cmap) =
        [default_outline tps cmap n]) \<and>
   (\<forall>n. n \<in> number ` set (parsed_outlines raw cmap) \<longrightarrow>
      filter (\<lambda>x. number x = n) (parseChapterOutlines raw N tps cmap) =
        filter (\<lambda>x. number x = n) (parsed_outlines raw cmap)) \<and>
   (distinct (map number (parsed_outlines raw cmap)) \<and>
    (\<forall>x. x \<in> set (parsed_outlines raw cmap) \<longrightarrow> 1 \<le> number x \<and> number x \<le> N) \<longrightarrow>
      map number (parseChapterOutlines raw N tps cmap) = [1..<Suc N]) \<and>
   number (default_outline tps cmap k) = k \<and>
   title (default_outline tps cmap k) =
     (case nth_opt tps (k - 1) of Some t \<Rightarrow> t | None \<Rightarrow> ''Chapter '' @ show_nat k) \<and>
   concept_ids (default_outline tps cmap k) =
     filter (\<lambda>x. \<not> isNaN x)
       (map (\<lambda>e. Number (before_dot e)) (case cmap k of Some entries \<Rightarrow> entries | None \<Rightarrow> []))"
proof -
  let ?P = "parsed_outlines raw cmap"
  let ?F = "number ` set ?P"
  let ?D = "map (default_outline tps cmap) (filter (\<lambda>n. n \<notin> ?F) [1..<Suc N])"
  let ?res = "parseChapterOutlines raw N tps cmap"
  have res: "?res = sort_key number (?P @ ?D)" by (rule parseChapterOutlines_eq)
  have set_res: "set ?res = set ?P \<union> set ?D" by (simp add: res)
  have numD: "map number ?D = filter (\<lambda>n. n \<notin> ?F) [1..<Suc N]"
    by (simp add: comp_def number_default_outline)
  have stable: "\<And>n. filter (\<lambda>x. number x = n) ?res =
      filter (\<lambda>x. number x = n) ?P @ filter (\<lambda>x. number x = n) ?D"
    by (simp add: res sort_key_stable)
  have c1: "sorted (map number ?res)" by (simp add: res)
  have c2: "\<forall>n. 1 \<le> n \<and> n \<le> N \<longrightarrow> (\<exists>x. x \<in> set ?res \<and> number x = n)"
  proof (intro allI impI)
    fix n assume n: "1 \<le> n \<and> n \<le> N"
    show "\<exists>x. x \<in> set ?res \<and> number x = n"
    proof (cases "n \<in> ?F")
      case True
      then obtain x where "x \<in> set ?P" "number x = n" by auto
      then show ?thesis using set_res by blast
    next
      case False
      with n have "n \<in> set (filter (\<lambda>n. n \<notin> ?F) [1..<Suc N])" by auto
      then have "default_outline tps cmap n \<in>
          default_outline tps cmap ` set (filter (\<lambda>n. n \<notin> ?F) [1..<Suc N])"
        by (rule imageI)
      then have "default_outline tps cmap n \<in> set ?D" by (simp only: set_map)
      then show ?thesis using set_res number_default_outline by blast
    qed
  qed
  have c3: "\<forall>n. 1 \<le> n \<and> n \<le> N \<and> n \<notin> ?F \<longrightarrow>
      filter (\<lambda>x. number x = n) ?res = [default_outline tps cmap n]"
  proof (intro allI impI)
    fix n assume n: "1 \<le> n \<and> n \<le> N \<and> n \<notin> ?F"
    then have "filter (\<lambda>x. number x = n) ?P = []" by (auto simp: filter_empty_conv)
    moreover have "filter (\<lambda>x. number x = n) ?D = [default_outline tps cmap n]"
      using n by (intro filter_eq_map_upt) auto
    ultimately show "filter (\<lambda>x. number x = n) ?res = [default_outline tps cmap n]"
      using stable by simp
  qed
  have c4: "\<forall>n. n \<in> ?F \<longrightarrow>
      filter (\<lambda>x. number x = n) ?res = filter (\<lambda>x. number x = n) ?P"
    using stable filter_defaults_found by simp
  have c5: "distinct (map number ?P) \<and> (\<forall>x. x \<in> set ?P \<longrightarrow> 1 \<le> number x \<and> number x \<le> N) \<longrightarrow>
      map number ?res = [1..<Suc N]"
  proof
    assume a: "distinct (map number ?P) \<and> (\<forall>x. x \<in> set ?P \<longrightarrow> 1 \<le> number x \<and> number x \<le> N)"
    have sub: "?F \<subseteq> {1..<Suc N}" using a by auto
    have setD: "set (filter (\<lambda>n. n \<notin> ?F) [1..<Suc N]) = {1..<Suc N} - ?F"
      by (simp only: set_filter set_upt) blast
    have dD: "distinct (filter (\<lambda>n. n \<notin> ?F) [1..<Suc N])"
      by (rule distinct_filter) (rule distinct_upt)
    have "distinct (map number ?P @ filter (\<lambda>n. n \<notin> ?F) [1..<Suc N])"
      using a dD setD by (simp only: distinct_append set_map) blast
    then have "distinct (map number (?P @ ?D))"
      by (simp only: map_append numD)
    then have d: "distinct (map number ?res)"
      by (simp only: res distinct_map_sort_key)
    have "set (map number ?res) = set (map number (?P @ ?D))"
      by (simp only: res set_map set_sort)
    also have "\<dots> = ?F \<union> set (map number ?D)"
      by (simp only: map_append set_append set_map)
    also have "\<dots> = ?F \<union> ({1..<Suc N} - ?F)"
      by (simp only: numD setD)
    also have "\<dots> = {1..<Suc N}" using sub by blast
    also have "\<dots> = set [1..<Suc N]" by (simp only: set_upt)
    finally have s: "set (map number ?res) = set [1..<Suc N]" .
    have s1: "sorted [1..<Suc N]" by (rule sorted_upt)
    have s2: "distinct [1..<Suc N]" by (rule distinct_upt)
    show "map number ?res = [1..<Suc N]"
      by (rule sorted_distinct_set_unique [OF c1 d s1 s2 s])
  qed
  have c6: "number (default_outline tps cmap k) = k" by (rule number_default_outline)
  have c7: "title (default_outline tps cmap k) =
     (case nth_opt tps (k - 1) of Some t \<Rightarrow> t | None \<Rightarrow> ''Chapter '' @ show_nat k)"
    by (simp add: default_outline_def Let_def)
  have c8: "concept_ids (default_outline tps cmap k) =
     filter (\<lambda>x. \<not> isNaN x)
       (map (\<lambda>e. Number (before_dot e)) (case cmap k of Some entries \<Rightarrow> entries | None \<Rightarrow> []))"
    by (simp add: default_outline_def Let_def)
  show ?thesis using c1 c2 c3 c4 c5 c6 c7 c8 by blast
qed

text \<open>
  The scenario of the specification: \<open>N = 3\<close> and blocks for chapters 3 and 1 only.
  Chapter 2 is synthesised from the fallback titles with no concept; the result is one
  record for each of 1, 2, 3.
\<close>

theorem parseChapterOutlines_complete_witness:
  "map number (parsed_outlines raw_1_3 Map.empty) = [3, 1] \<and>
   map number (parseChapterOutlines raw_1_3 3 [''T1'', ''T2''] Map.empty) = [1, 2, 3] \<and>
   filter (\<lambda>x. number x = 2) (parseChapterOutlines raw_1_3 3 [''T1'', ''T2''] Map.empty) =
     [\<lparr> number = 2, title = ''T2'', summary = ''Chapter 2 covers T2.'', concept_ids = [] \<rparr>] \<and>
   map title (filter (\<lambda>x. number x = 3) (parseChapterOutlines raw_1_3 3 [''T1'', ''T2''] Map.empty)) =
     [''Gamma''] \<and>
   (\<exists>x. x \<in> set (parseChapterOutlines raw_1_3 3 [''T1'', ''T2''] Map.empty) \<and> number x = 1)"
proof -
  let ?tps = "[''T1'', ''T2'']"
  let ?res = "parseChapterOutlines raw_1_3 3 ?tps Map.empty"
  note T = parseChapterOutlines_complete [of raw_1_3 3 ?tps Map.empty 2]
  have p: "map number (parsed_outlines raw_1_3 Map.empty) = [3, 1]" by code_simp
  then have F: "number ` set (parsed_outlines raw_1_3 Map.empty) = {3, 1}"
    by (metis list.simps(15) set_map set_empty2 empty_set)
  have two: "(1::nat) \<le> 2 \<and> (2::nat) \<le> 3 \<and> 2 \<notin> number ` set (parsed_outlines raw_1_3 Map.empty)"
    using F by simp
  have d2: "default_outline ?tps Map.empty 2 =
      \<lparr> number = 2, title = ''T2'', summary = ''Chapter 2 covers T2.'', concept_ids = [] \<rparr>"
    by code_simp
  have g: "filter (\<lambda>x. number x = 2) ?res = [default_outline ?tps Map.empty 2]"
    using T two by blast
  have three: "3 \<in> number ` set (parsed_outlines raw_1_3 Map.empty)" using F by simp
  have "filter (\<lambda>x. number x = 3) ?res = filter (\<lambda>x. number x = 3) (parsed_outlines raw_1_3 Map.empty)"
    using T three by blast
  moreover have "map title (filter (\<lambda>x. number x = 3) (parsed_outlines raw_1_3 Map.empty)) = [''Gamma'']"
    by code_simp
  ultimately have t3: "map title (filter (\<lambda>x. number x = 3) ?res) = [''Gamma'']" by simp
  have dist: "distinct (map number (parsed_outlines raw_1_3 Map.empty))" using p by simp
  have rng: "\<forall>x. x \<in> set (parsed_outlines raw_1_3 Map.empty) \<longrightarrow> 1 \<le> number x \<and> number x \<le> 3"
  proof (intro allI impI)
    fix x assume "x \<in> set (parsed_outlines raw_1_3 Map.empty)"
    then have "number x \<in> number ` set (parsed_outlines raw_1_3 Map.empty)" by (rule imageI)
    with F have "number x = 3 \<or> number x = 1" by simp
    then show "1 \<le> number x \<and> number x \<le> 3" by auto
  qed
  have "map number ?res = [1..<Suc 3]" using T dist rng by blast
  moreover have "[1..<Suc 3] = [1, 2, 3::nat]" by code_simp
  ultimately have all: "map number ?res = [1, 2, 3]" by simp
  have one: "\<exists>x. x \<in> set ?res \<and> number x = 1"
  proof -
    have "(1::nat) \<le> 1 \<and> (1::nat) \<le> 3" by simp
    with T show ?thesis by blast
  qed
  show ?thesis using p all g d2 t3 one by simp
qed

end
